theory Spec2Isabelle
  imports Main
begin

section \<open>The UDP binding of node (src/udp\_wrap.cc)\<close>

text \<open>
  The file is a thin layer between the JavaScript side and libuv. Each method unwraps the
  socket, calls one libuv function, records a failure in the process-wide errno and hands
  a JavaScript value back. Two callbacks (\<open>OnSend\<close>, \<open>OnRecv\<close>) are entered from
  the event loop and call into JavaScript with \<open>MakeCallback\<close>.

  The model is a state-passing one. A \<open>world\<close> holds what the methods read and write:
  the errno that \<open>SetErrno\<close> sets, the last error of the default loop, the sequence
  of \<open>MakeCallback\<close> calls made so far, the sequence of calls made into libuv and into
  the slab allocator, the \<open>SendWrap\<close> objects that are alive, and for every socket
  the part of its libuv handle the claims speak about. An \<open>assert\<close> that fails and
  \<open>abort()\<close> end the process: a method returns \<open>Abort\<close> there.
\<close>

subsection \<open>Values\<close>

text \<open>The \<open>int family\<close> argument of \<open>DoBind\<close> and \<open>DoSend\<close>: the two cases of
  their \<open>switch\<close>, and any other number.\<close>

datatype family = AF_INET | AF_INET6 | AF_OTHER int

text \<open>A socket address as \<open>uv_ip4_addr\<close> and \<open>uv_ip6_addr\<close> build it from a text and
  a port, and as libuv hands it to \<open>OnRecv\<close>. The two functions take the port as an
  \<open>int\<close>; the port of a socket address has 16 bits, which keep the low 16 bits of
  that \<open>int\<close>.\<close>

datatype sockaddr = SockAddr family string nat

definition uv_ip4_addr :: "string \<Rightarrow> int \<Rightarrow> sockaddr" where
  "uv_ip4_addr ip port = SockAddr AF_INET ip (nat (port mod 65536))"

definition uv_ip6_addr :: "string \<Rightarrow> int \<Rightarrow> sockaddr" where
  "uv_ip6_addr ip port = SockAddr AF_INET6 ip (nat (port mod 65536))"

text \<open>A \<open>uint32_t\<close> stored in an \<open>int\<close> (\<open>const int port = args[1]->Uint32Value()\<close>):
  the values from \<open>2 ^ 31\<close> on become negative.\<close>

definition int_of_uint32 :: "nat \<Rightarrow> int" where
  "int_of_uint32 v =
     (if v mod 2 ^ 32 < 2 ^ 31 then int (v mod 2 ^ 32) else int (v mod 2 ^ 32) - 2 ^ 32)"

text \<open>A \<open>Buffer\<close> object: its identity, the address of its bytes (\<open>Buffer::Data\<close>) and
  their number (\<open>Buffer::Length\<close>).\<close>

record buffer =
  buf_id :: nat
  buf_data :: nat
  buf_length :: nat

text \<open>\<open>uv_buf_t\<close>, built by \<open>uv_buf_init\<close>.\<close>

record uv_buf_t =
  base :: nat
  len :: nat

definition uv_buf_init :: "nat \<Rightarrow> nat \<Rightarrow> uv_buf_t" where
  "uv_buf_init b l = \<lparr>base = b, len = l\<rparr>"

text \<open>
  An argument that the source inspects as a JavaScript value (\<open>args[1]\<close> of
  \<open>SetMembership\<close>): it is undefined, null, a string, or a value of another kind, which
  is carried with the text that the engine's string conversion gives for it. The other
  arguments enter the model as the result of the conversion the source applies to them
  (\<open>Uint32Value\<close>, \<open>Int32Value\<close>, \<open>Utf8Value\<close>).
\<close>

datatype js_arg = ArgUndefined | ArgNull | ArgString string | ArgOther string

fun IsUndefined :: "js_arg \<Rightarrow> bool" where
  "IsUndefined ArgUndefined = True"
| "IsUndefined _ = False"

fun IsNull :: "js_arg \<Rightarrow> bool" where
  "IsNull ArgNull = True"
| "IsNull _ = False"

fun Utf8Value :: "js_arg \<Rightarrow> string" where
  "Utf8Value ArgUndefined = ''undefined''"
| "Utf8Value ArgNull = ''null''"
| "Utf8Value (ArgString s) = s"
| "Utf8Value (ArgOther s) = s"

text \<open>The values the methods return and pass to JavaScript. \<open>UDPObject n\<close> is the
  \<open>object_\<close> of socket \<open>n\<close>, \<open>ReqObject i\<close> the \<open>object_\<close> of the \<open>SendWrap\<close>
  \<open>i\<close>, \<open>Empty\<close> the empty handle that \<open>GetHiddenValue\<close> gives for a missing key,
  \<open>AddressObject\<close> what \<open>AddressToJS\<close> (tcp\_wrap.cc) builds from an address.\<close>

datatype js_value =
    Null
  | JSTrue
  | JSFalse
  | Empty
  | Integer int
  | UDPObject nat
  | ReqObject nat
  | BufferObject buffer
  | AddressObject sockaddr

text \<open>\<open>Integer::NewFromUnsigned\<close> takes a \<open>uint32_t\<close>: a wider operand is cut to its
  low 32 bits by the call.\<close>

definition NewFromUnsigned :: "int \<Rightarrow> js_value" where
  "NewFromUnsigned v = Integer (v mod 2 ^ 32)"

datatype symbol = buffer_sym | oncomplete_sym | onmessage_sym

subsection \<open>Errors\<close>

text \<open>The error codes of libuv the file can tell apart: \<open>UV_EALREADY\<close>, which
  \<open>RecvStart\<close> names, the bind conflict of the specification's taxonomy, and every other
  code by its number.\<close>

datatype uv_err_code = UV_EALREADY | UV_BIND_CONFLICT | UV_CODE int

record uv_err_t =
  code :: uv_err_code
  sys_errno :: int

text \<open>What a call into libuv gives back when the operating system decides its outcome:
  the \<open>int\<close> it returns, and the last error of the loop once it has returned.\<close>

record uv_result =
  uv_r :: int
  uv_e :: uv_err_t

subsection \<open>The world\<close>

datatype uv_membership = UV_LEAVE_GROUP | UV_JOIN_GROUP

text \<open>One entry per call into libuv, with the arguments the call was given.\<close>

datatype uv_call =
    Call_udp_bind nat sockaddr nat
  | Call_udp_bind6 nat sockaddr nat
  | Call_udp_set_ttl nat int
  | Call_udp_set_broadcast nat int
  | Call_udp_set_multicast_ttl nat int
  | Call_udp_set_multicast_loop nat int
  | Call_udp_set_membership nat string "string option" uv_membership
  | Call_udp_send nat nat uv_buf_t sockaddr
  | Call_udp_send6 nat nat uv_buf_t sockaddr
  | Call_udp_recv_start nat
  | Call_udp_recv_stop nat
  | Call_udp_getsockname nat

text \<open>One entry per call into the slab allocator.\<close>

datatype slab_call =
    Allocate nat nat
  | Shrink nat nat nat

text \<open>One entry per \<open>MakeCallback\<close>: the object and the symbol of the function called,
  the arguments, and the errno in force when the call is made.\<close>

record callback =
  cb_object :: js_value
  cb_symbol :: symbol
  cb_argv :: "js_value list"
  cb_errno :: "uv_err_t option"

text \<open>A \<open>SendWrap\<close> (\<open>ReqWrap<uv_udp_send_t>\<close>): the hidden values of its \<open>object_\<close>,
  the socket its request was given to, and whether \<open>Dispatched()\<close> has set
  \<open>req_.data\<close>.\<close>

record send_wrap =
  sw_hidden :: "symbol \<rightharpoonup> js_value"
  sw_handle :: "nat option"
  sw_dispatched :: bool

text \<open>The part of a \<open>uv_udp_t\<close> that the specification gives a socket: the family and
  address it is bound to, if any, and whether receiving is armed.\<close>

record uv_udp_t =
  bound :: "sockaddr option"
  recv_armed :: bool

record world =
  errno :: "uv_err_t option"
  last_error :: uv_err_t
  callbacks :: "callback list"
  uv_calls :: "uv_call list"
  slab_calls :: "slab_call list"
  reqs :: "nat \<rightharpoonup> send_wrap"
  next_req :: nat
  send_queue :: "nat list"
  handles :: "nat \<Rightarrow> uv_udp_t"

datatype 'a run = Abort | Return 'a

definition init_world :: world where
  "init_world =
     \<lparr>errno = None, last_error = \<lparr>code = UV_CODE 0, sys_errno = 0\<rparr>, callbacks = [],
      uv_calls = [], slab_calls = [], reqs = Map.empty, next_req = 0, send_queue = [],
      handles = (\<lambda>_. \<lparr>bound = None, recv_armed = False\<rparr>)\<rparr>"

subsection \<open>What the file calls\<close>

text \<open>Modelled from the spec: \<open>SetErrno\<close> is declared in node.h and defined outside
  src/. The specification's Error Translator keeps one process-visible last error; the
  model stores there the libuv error that \<open>SetErrno\<close> is given, untranslated.\<close>

definition SetErrno :: "uv_err_t \<Rightarrow> world \<Rightarrow> world" where
  "SetErrno e w = w\<lparr>errno := Some e\<rparr>"

definition uv_last_error :: "world \<Rightarrow> uv_err_t" where
  "uv_last_error w = last_error w"

text \<open>\<open>MakeCallback\<close> enters JavaScript. What the function called there does is not part
  of this file: the model records the call.\<close>

definition MakeCallback :: "js_value \<Rightarrow> symbol \<Rightarrow> js_value list \<Rightarrow> world \<Rightarrow> world" where
  "MakeCallback obj name argv w =
     w\<lparr>callbacks := callbacks w @
         [\<lparr>cb_object = obj, cb_symbol = name, cb_argv = argv, cb_errno = errno w\<rparr>]\<rparr>"

text \<open>A call into libuv whose outcome the operating system decides: the call is
  recorded, the loop's last error becomes the one given, the \<open>int\<close> given is returned.\<close>

definition uv_call_os :: "uv_call \<Rightarrow> uv_result \<Rightarrow> world \<Rightarrow> int \<times> world" where
  "uv_call_os c res w =
     (uv_r res, w\<lparr>uv_calls := uv_calls w @ [c], last_error := uv_e res\<rparr>)"

definition family_of :: "sockaddr \<Rightarrow> family" where
  "family_of a = (case a of SockAddr f _ _ \<Rightarrow> f)"

text \<open>Modelled from the spec: \<open>uv_udp_bind\<close> and \<open>uv_udp_bind6\<close> are libuv's (deps/uv),
  outside src/. The specification: the address family is immutable once a bind
  succeeds; a bind with a different family is rejected with a bind-conflict error and
  leaves the original binding intact; a failed bind leaves the socket as it was. A bind
  of an unbound socket, and a bind with the family already bound, are the operating
  system's to decide.\<close>

definition uv_udp_bind_os :: "uv_call \<Rightarrow> nat \<Rightarrow> sockaddr \<Rightarrow> uv_result \<Rightarrow> world \<Rightarrow> int \<times> world" where
  "uv_udp_bind_os c h addr res w =
     (case bound (handles w h) of
        Some b \<Rightarrow>
          if family_of b \<noteq> family_of addr
          then (- 1, w\<lparr>uv_calls := uv_calls w @ [c],
                       last_error := \<lparr>code = UV_BIND_CONFLICT, sys_errno = 0\<rparr>\<rparr>)
          else if uv_r res = 0
          then (0, w\<lparr>uv_calls := uv_calls w @ [c], last_error := uv_e res,
                     handles := (handles w)(h := (handles w h)\<lparr>bound := Some addr\<rparr>)\<rparr>)
          else (uv_r res, w\<lparr>uv_calls := uv_calls w @ [c], last_error := uv_e res\<rparr>)
      | None \<Rightarrow>
          if uv_r res = 0
          then (0, w\<lparr>uv_calls := uv_calls w @ [c], last_error := uv_e res,
                     handles := (handles w)(h := (handles w h)\<lparr>bound := Some addr\<rparr>)\<rparr>)
          else (uv_r res, w\<lparr>uv_calls := uv_calls w @ [c], last_error := uv_e res\<rparr>))"

definition uv_udp_bind :: "nat \<Rightarrow> sockaddr \<Rightarrow> nat \<Rightarrow> uv_result \<Rightarrow> world \<Rightarrow> int \<times> world" where
  "uv_udp_bind h addr flags res w = uv_udp_bind_os (Call_udp_bind h addr flags) h addr res w"

definition uv_udp_bind6 :: "nat \<Rightarrow> sockaddr \<Rightarrow> nat \<Rightarrow> uv_result \<Rightarrow> world \<Rightarrow> int \<times> world" where
  "uv_udp_bind6 h addr flags res w = uv_udp_bind_os (Call_udp_bind6 h addr flags) h addr res w"

text \<open>Modelled from the spec: \<open>uv_udp_recv_start\<close> and \<open>uv_udp_recv_stop\<close> are libuv's,
  outside src/. The specification: a socket has a receive-armed flag; arming an armed
  socket is the harmless "already started" condition, which the source reads as
  \<open>UV_EALREADY\<close>; disarming clears the flag. Arming a socket that is not armed is the
  operating system's to decide.\<close>

definition uv_udp_recv_start :: "nat \<Rightarrow> uv_result \<Rightarrow> world \<Rightarrow> int \<times> world" where
  "uv_udp_recv_start h res w =
     (if recv_armed (handles w h)
      then (- 1, w\<lparr>uv_calls := uv_calls w @ [Call_udp_recv_start h],
                   last_error := \<lparr>code = UV_EALREADY, sys_errno = 0\<rparr>\<rparr>)
      else if uv_r res = 0
      then (0, w\<lparr>uv_calls := uv_calls w @ [Call_udp_recv_start h], last_error := uv_e res,
                 handles := (handles w)(h := (handles w h)\<lparr>recv_armed := True\<rparr>)\<rparr>)
      else (uv_r res, w\<lparr>uv_calls := uv_calls w @ [Call_udp_recv_start h],
                        last_error := uv_e res\<rparr>))"

definition uv_udp_recv_stop :: "nat \<Rightarrow> uv_result \<Rightarrow> world \<Rightarrow> int \<times> world" where
  "uv_udp_recv_stop h res w =
     (if uv_r res = 0
      then (0, w\<lparr>uv_calls := uv_calls w @ [Call_udp_recv_stop h], last_error := uv_e res,
                 handles := (handles w)(h := (handles w h)\<lparr>recv_armed := False\<rparr>)\<rparr>)
      else (uv_r res, w\<lparr>uv_calls := uv_calls w @ [Call_udp_recv_stop h],
                        last_error := uv_e res\<rparr>))"

text \<open>Modelled from the spec: \<open>uv_udp_send\<close> and \<open>uv_udp_send6\<close> are libuv's, outside
  src/. The specification: the send primitive is fire-and-forget with a completion
  callback; when it returns 0 the transmission has started and the request is held by
  the loop until its completion is reported; when it fails to start, the request is not
  held. The call stores the socket in the request (\<open>req->handle\<close>).\<close>

definition uv_udp_send_os :: "uv_call \<Rightarrow> nat \<Rightarrow> nat \<Rightarrow> uv_result \<Rightarrow> world \<Rightarrow> int \<times> world" where
  "uv_udp_send_os c req h res w =
     (let w1 = w\<lparr>uv_calls := uv_calls w @ [c], last_error := uv_e res,
                 reqs := (case reqs w req of
                            None \<Rightarrow> reqs w
                          | Some rw \<Rightarrow> (reqs w)(req \<mapsto> rw\<lparr>sw_handle := Some h\<rparr>))\<rparr>
      in if uv_r res = 0 then (0, w1\<lparr>send_queue := send_queue w1 @ [req]\<rparr>)
         else (uv_r res, w1))"

definition uv_udp_send :: "nat \<Rightarrow> nat \<Rightarrow> uv_buf_t \<Rightarrow> sockaddr \<Rightarrow> uv_result \<Rightarrow> world \<Rightarrow> int \<times> world" where
  "uv_udp_send req h buf addr res w = uv_udp_send_os (Call_udp_send req h buf addr) req h res w"

definition uv_udp_send6 :: "nat \<Rightarrow> nat \<Rightarrow> uv_buf_t \<Rightarrow> sockaddr \<Rightarrow> uv_result \<Rightarrow> world \<Rightarrow> int \<times> world" where
  "uv_udp_send6 req h buf addr res w = uv_udp_send_os (Call_udp_send6 req h buf addr) req h res w"

text \<open>Modelled from the spec: \<open>ReqWrap\<close> is declared in req\_wrap.h, outside src/. The
  specification: a Send Request is created synchronously inside send, holds a
  reference to the payload, and is destroyed after its completion is reported or when
  the transmission fails to start. A new \<open>SendWrap\<close> takes the next free identity; its
  \<open>object_\<close> has no hidden value yet.\<close>

definition new_SendWrap :: "world \<Rightarrow> nat \<times> world" where
  "new_SendWrap w =
     (next_req w,
      w\<lparr>reqs := (reqs w)(next_req w \<mapsto>
                  \<lparr>sw_hidden = Map.empty, sw_handle = None, sw_dispatched = False\<rparr>),
        next_req := Suc (next_req w)\<rparr>)"

definition SetHiddenValue :: "nat \<Rightarrow> symbol \<Rightarrow> js_value \<Rightarrow> world \<Rightarrow> world" where
  "SetHiddenValue req k v w =
     (case reqs w req of
        None \<Rightarrow> w
      | Some rw \<Rightarrow> w\<lparr>reqs := (reqs w)(req \<mapsto> rw\<lparr>sw_hidden := (sw_hidden rw)(k \<mapsto> v)\<rparr>)\<rparr>)"

definition GetHiddenValue :: "send_wrap \<Rightarrow> symbol \<Rightarrow> js_value" where
  "GetHiddenValue rw k = (case sw_hidden rw k of None \<Rightarrow> Empty | Some v \<Rightarrow> v)"

definition Dispatched :: "nat \<Rightarrow> world \<Rightarrow> world" where
  "Dispatched req w =
     (case reqs w req of
        None \<Rightarrow> w
      | Some rw \<Rightarrow> w\<lparr>reqs := (reqs w)(req \<mapsto> rw\<lparr>sw_dispatched := True\<rparr>)\<rparr>)"

definition delete_req :: "nat \<Rightarrow> world \<Rightarrow> world" where
  "delete_req req w = w\<lparr>reqs := (reqs w)(req := None)\<rparr>"

text \<open>\<open>SlabAllocator\<close> is declared in slab\_allocator.h, outside src/. The file only
  calls it: the model records each call with its arguments and takes what the call
  returns (the pointer of \<open>Allocate\<close>, the slab of \<open>Shrink\<close>) as given.\<close>

definition SlabAllocator_Allocate :: "nat \<Rightarrow> nat \<Rightarrow> nat \<Rightarrow> world \<Rightarrow> nat \<times> world" where
  "SlabAllocator_Allocate obj sz ptr w =
     (ptr, w\<lparr>slab_calls := slab_calls w @ [Allocate obj sz]\<rparr>)"

definition SlabAllocator_Shrink :: "nat \<Rightarrow> nat \<Rightarrow> nat \<Rightarrow> buffer \<Rightarrow> world \<Rightarrow> buffer \<times> world" where
  "SlabAllocator_Shrink obj ptr sz slab w =
     (slab, w\<lparr>slab_calls := slab_calls w @ [Shrink obj ptr sz]\<rparr>)"

subsection \<open>The methods\<close>

text \<open>
  Every method takes the socket \<open>wrap\<close> that \<open>UNWRAP(UDPWrap)\<close> yields, its arguments
  after the conversions of the source, what the operating system answers (\<open>res\<close>), and
  the world. The assertions on the number of arguments and on \<open>args[0]\<close> being a
  \<open>Buffer\<close> hold by the types of the model.
\<close>

text \<open>\<open>UDPWrap::DoBind\<close>, lines 132 to 161. \<open>port\<close> and \<open>flags\<close> are the
  \<open>Uint32Value\<close> of \<open>args[1]\<close> and \<open>args[2]\<close>; the source keeps the port in a
  \<open>const int\<close>.\<close>

definition DoBind :: "nat \<Rightarrow> string \<Rightarrow> nat \<Rightarrow> nat \<Rightarrow> family \<Rightarrow> uv_result \<Rightarrow> world \<Rightarrow> (js_value \<times> world) run" where
  "DoBind wrap address port flags fam res w =
     (case (case fam of
              AF_INET \<Rightarrow>
                Some (uv_udp_bind wrap (uv_ip4_addr address (int_of_uint32 port)) flags res w)
            | AF_INET6 \<Rightarrow>
                Some (uv_udp_bind6 wrap (uv_ip6_addr address (int_of_uint32 port)) flags res w)
            | AF_OTHER _ \<Rightarrow> None) of
        None \<Rightarrow> Abort
      | Some (r, w1) \<Rightarrow>
          Return (Integer r, if r \<noteq> 0 then SetErrno (uv_last_error w1) w1 else w1))"

definition Bind :: "nat \<Rightarrow> string \<Rightarrow> nat \<Rightarrow> nat \<Rightarrow> uv_result \<Rightarrow> world \<Rightarrow> (js_value \<times> world) run" where
  "Bind wrap address port flags res w = DoBind wrap address port flags AF_INET res w"

definition Bind6 :: "nat \<Rightarrow> string \<Rightarrow> nat \<Rightarrow> nat \<Rightarrow> uv_result \<Rightarrow> world \<Rightarrow> (js_value \<times> world) run" where
  "Bind6 wrap address port flags res w = DoBind wrap address port flags AF_INET6 res w"

text \<open>The macro \<open>X(name, fn)\<close>, lines 174 to 183, and its four uses.\<close>

definition X :: "(nat \<Rightarrow> int \<Rightarrow> uv_call) \<Rightarrow> nat \<Rightarrow> int \<Rightarrow> uv_result \<Rightarrow> world \<Rightarrow> js_value \<times> world" where
  "X fn wrap flag res w =
     (let (r, w1) = uv_call_os (fn wrap flag) res w
      in (Integer r, if r \<noteq> 0 then SetErrno (uv_last_error w1) w1 else w1))"

definition SetTTL :: "nat \<Rightarrow> int \<Rightarrow> uv_result \<Rightarrow> world \<Rightarrow> js_value \<times> world" where
  "SetTTL = X Call_udp_set_ttl"

definition SetBroadcast :: "nat \<Rightarrow> int \<Rightarrow> uv_result \<Rightarrow> world \<Rightarrow> js_value \<times> world" where
  "SetBroadcast = X Call_udp_set_broadcast"

definition SetMulticastTTL :: "nat \<Rightarrow> int \<Rightarrow> uv_result \<Rightarrow> world \<Rightarrow> js_value \<times> world" where
  "SetMulticastTTL = X Call_udp_set_multicast_ttl"

definition SetMulticastLoopback :: "nat \<Rightarrow> int \<Rightarrow> uv_result \<Rightarrow> world \<Rightarrow> js_value \<times> world" where
  "SetMulticastLoopback = X Call_udp_set_multicast_loop"

text \<open>\<open>UDPWrap::SetMembership\<close>, lines 193 to 215. \<open>iface_cstr\<close> is a \<open>const char*\<close>:
  \<open>None\<close> is the null pointer.\<close>

definition SetMembership :: "nat \<Rightarrow> string \<Rightarrow> js_arg \<Rightarrow> uv_membership \<Rightarrow> uv_result \<Rightarrow> world \<Rightarrow> js_value \<times> world" where
  "SetMembership wrap address iface membership res w =
     (let iface_cstr = (if IsUndefined iface \<or> IsNull iface then None
                        else Some (Utf8Value iface));
          (r, w1) = uv_call_os (Call_udp_set_membership wrap address iface_cstr membership) res w
      in (Integer r, if r \<noteq> 0 then SetErrno (uv_last_error w1) w1 else w1))"

definition AddMembership :: "nat \<Rightarrow> string \<Rightarrow> js_arg \<Rightarrow> uv_result \<Rightarrow> world \<Rightarrow> js_value \<times> world" where
  "AddMembership wrap address iface res w = SetMembership wrap address iface UV_JOIN_GROUP res w"

definition DropMembership :: "nat \<Rightarrow> string \<Rightarrow> js_arg \<Rightarrow> uv_result \<Rightarrow> world \<Rightarrow> js_value \<times> world" where
  "DropMembership wrap address iface res w = SetMembership wrap address iface UV_LEAVE_GROUP res w"

text \<open>\<open>UDPWrap::DoSend\<close>, lines 228 to 278. \<open>offset\<close> and \<open>length'\<close> are the
  \<open>Uint32Value\<close> of \<open>args[1]\<close> and \<open>args[2]\<close>; the second assertion is reached only
  when the first holds, so its subtraction does not wrap. \<open>port\<close> is cut to an
  \<open>unsigned short\<close>.\<close>

definition DoSend :: "nat \<Rightarrow> buffer \<Rightarrow> nat \<Rightarrow> nat \<Rightarrow> nat \<Rightarrow> string \<Rightarrow> family \<Rightarrow> uv_result \<Rightarrow> world \<Rightarrow> (js_value \<times> world) run" where
  "DoSend wrap buffer_obj offset length' port address fam res w =
     (if \<not> offset < buf_length buffer_obj then Abort
      else if \<not> length' \<le> buf_length buffer_obj - offset then Abort
      else
        let (req_wrap, w1) = new_SendWrap w;
            w2 = SetHiddenValue req_wrap buffer_sym (BufferObject buffer_obj) w1;
            buf = uv_buf_init (buf_data buffer_obj + offset) length';
            port16 = int (port mod 65536)
        in case (case fam of
                   AF_INET \<Rightarrow>
                     Some (uv_udp_send req_wrap wrap buf (uv_ip4_addr address port16) res w2)
                 | AF_INET6 \<Rightarrow>
                     Some (uv_udp_send6 req_wrap wrap buf (uv_ip6_addr address port16) res w2)
                 | AF_OTHER _ \<Rightarrow> None) of
             None \<Rightarrow> Abort
           | Some (r, w3) \<Rightarrow>
               let w4 = Dispatched req_wrap w3
               in if r \<noteq> 0
                  then Return (Null, delete_req req_wrap (SetErrno (uv_last_error w4) w4))
                  else Return (ReqObject req_wrap, w4))"

definition Send :: "nat \<Rightarrow> buffer \<Rightarrow> nat \<Rightarrow> nat \<Rightarrow> nat \<Rightarrow> string \<Rightarrow> uv_result \<Rightarrow> world \<Rightarrow> (js_value \<times> world) run" where
  "Send wrap buffer_obj offset length' port address res w =
     DoSend wrap buffer_obj offset length' port address AF_INET res w"

definition Send6 :: "nat \<Rightarrow> buffer \<Rightarrow> nat \<Rightarrow> nat \<Rightarrow> nat \<Rightarrow> string \<Rightarrow> uv_result \<Rightarrow> world \<Rightarrow> (js_value \<times> world) run" where
  "Send6 wrap buffer_obj offset length' port address res w =
     DoSend wrap buffer_obj offset length' port address AF_INET6 res w"

text \<open>\<open>UDPWrap::RecvStart\<close>, lines 291 to 304.\<close>

definition RecvStart :: "nat \<Rightarrow> uv_result \<Rightarrow> world \<Rightarrow> js_value \<times> world" where
  "RecvStart wrap res w =
     (let (r, w1) = uv_udp_recv_start wrap res w
      in if r \<noteq> 0 \<and> code (uv_last_error w1) \<noteq> UV_EALREADY
         then (JSFalse, SetErrno (uv_last_error w1) w1)
         else (JSTrue, w1))"

text \<open>\<open>UDPWrap::RecvStop\<close>, lines 307 to 315.\<close>

definition RecvStop :: "nat \<Rightarrow> uv_result \<Rightarrow> world \<Rightarrow> js_value \<times> world" where
  "RecvStop wrap res w =
     (let (r, w1) = uv_udp_recv_stop wrap res w
      in (Integer r, w1))"

text \<open>\<open>UDPWrap::GetSockName\<close>, lines 318 to 340. \<open>address\<close> is what
  \<open>uv_udp_getsockname\<close> writes when it succeeds.\<close>

definition GetSockName :: "nat \<Rightarrow> sockaddr \<Rightarrow> uv_result \<Rightarrow> world \<Rightarrow> js_value \<times> world" where
  "GetSockName wrap address res w =
     (let (r, w1) = uv_call_os (Call_udp_getsockname wrap) res w
      in if r \<noteq> 0 then (Null, SetErrno (uv_last_error w1) w1)
         else (AddressObject address, w1))"

subsection \<open>The callbacks\<close>

text \<open>\<open>UDPWrap::OnSend\<close>, lines 344 to 368. The request must be alive, with
  \<open>req->data\<close> set by \<open>Dispatched()\<close> and \<open>req->handle\<close> set by the send call:
  otherwise the source reads freed or unset memory, which the model counts as the
  end of the process.\<close>

definition OnSend :: "nat \<Rightarrow> int \<Rightarrow> world \<Rightarrow> world run" where
  "OnSend req status w =
     (case reqs w req of
        None \<Rightarrow> Abort
      | Some req_wrap \<Rightarrow>
          (case sw_handle req_wrap of
             None \<Rightarrow> Abort
           | Some wrap \<Rightarrow>
               if \<not> sw_dispatched req_wrap then Abort
               else
                 let w1 = (if status \<noteq> 0 then SetErrno (uv_last_error w) w else w);
                     argv = [Integer status, UDPObject wrap, ReqObject req,
                             GetHiddenValue req_wrap buffer_sym];
                     w2 = MakeCallback (ReqObject req) oncomplete_sym argv w1
                 in Return (delete_req req w2)))"

text \<open>\<open>UDPWrap::OnAlloc\<close>, lines 371 to 375; \<open>buf\<close> is the pointer \<open>Allocate\<close>
  returns.\<close>

definition OnAlloc :: "nat \<Rightarrow> nat \<Rightarrow> nat \<Rightarrow> world \<Rightarrow> uv_buf_t \<times> world" where
  "OnAlloc wrap suggested_size ptr w =
     (let (buf, w1) = SlabAllocator_Allocate wrap suggested_size ptr w
      in (uv_buf_init buf suggested_size, w1))"

text \<open>\<open>UDPWrap::OnRecv\<close>, lines 378 to 410; \<open>slab_obj\<close> is the \<open>Buffer\<close> that
  \<open>Shrink\<close> returns. \<open>nread\<close> is an \<open>ssize_t\<close>; the size passed to \<open>Shrink\<close> is an
  \<open>unsigned long\<close>.\<close>

definition OnRecv :: "nat \<Rightarrow> int \<Rightarrow> uv_buf_t \<Rightarrow> sockaddr \<Rightarrow> nat \<Rightarrow> buffer \<Rightarrow> world \<Rightarrow> world" where
  "OnRecv wrap nread buf addr flags slab_obj w =
     (let (slab, w1) = SlabAllocator_Shrink wrap (base buf)
                         (if nread < 0 then 0 else nat nread) slab_obj w
      in if nread = 0 then w1
         else if nread < 0
         then
           let argv = [UDPObject wrap];
               w2 = SetErrno (uv_last_error w1) w1
           in MakeCallback (UDPObject wrap) onmessage_sym argv w2
         else
           let argv = [UDPObject wrap, BufferObject slab,
                       NewFromUnsigned (int (base buf) - int (buf_data slab)),
                       NewFromUnsigned nread, AddressObject addr]
           in MakeCallback (UDPObject wrap) onmessage_sym argv w1)"

subsection \<open>Runs\<close>

text \<open>
  A run of the process is a sequence of events: the application calls a method, or the
  event loop enters one of the callbacks. The value a method returns goes to JavaScript;
  the run keeps the world. A run ends where a method aborts.
\<close>

datatype event =
    Ev_Bind nat string nat nat uv_result
  | Ev_Bind6 nat string nat nat uv_result
  | Ev_SetTTL nat int uv_result
  | Ev_SetBroadcast nat int uv_result
  | Ev_SetMulticastTTL nat int uv_result
  | Ev_SetMulticastLoopback nat int uv_result
  | Ev_AddMembership nat string js_arg uv_result
  | Ev_DropMembership nat string js_arg uv_result
  | Ev_Send nat buffer nat nat nat string uv_result
  | Ev_Send6 nat buffer nat nat nat string uv_result
  | Ev_RecvStart nat uv_result
  | Ev_RecvStop nat uv_result
  | Ev_GetSockName nat sockaddr uv_result
  | Ev_send_done nat int uv_err_t
  | Ev_recv nat nat nat int sockaddr nat buffer uv_err_t

text \<open>Modelled from the spec: the event loop is libuv's, outside src/. The
  specification: the completion of a request the loop holds is reported once, after
  which the loop holds it no longer; no completion is reported for a request the loop
  does not hold. \<open>e\<close> is the last error of the loop when \<open>OnSend\<close> is entered.\<close>

definition loop_send_done :: "nat \<Rightarrow> int \<Rightarrow> uv_err_t \<Rightarrow> world \<Rightarrow> world run" where
  "loop_send_done req status e w =
     (if req \<in> set (send_queue w)
      then OnSend req status
             (w\<lparr>send_queue := removeAll req (send_queue w), last_error := e\<rparr>)
      else Return w)"

text \<open>Modelled from the spec: while a socket is armed, the loop asks for a buffer with
  \<open>OnAlloc\<close> and enters \<open>OnRecv\<close> with that buffer and the result of the read; a
  socket that is not armed receives nothing.\<close>

definition loop_recv :: "nat \<Rightarrow> nat \<Rightarrow> nat \<Rightarrow> int \<Rightarrow> sockaddr \<Rightarrow> nat \<Rightarrow> buffer \<Rightarrow> uv_err_t \<Rightarrow> world \<Rightarrow> world" where
  "loop_recv wrap suggested_size ptr nread addr flags slab_obj e w =
     (if recv_armed (handles w wrap)
      then let (buf, w1) = OnAlloc wrap suggested_size ptr w
           in OnRecv wrap nread buf addr flags slab_obj (w1\<lparr>last_error := e\<rparr>)
      else w)"

definition world_of :: "('a \<times> world) run \<Rightarrow> world run" where
  "world_of x = (case x of Abort \<Rightarrow> Abort | Return (v, w) \<Rightarrow> Return w)"

fun step :: "event \<Rightarrow> world \<Rightarrow> world run" where
  "step (Ev_Bind h a p f r) w = world_of (Bind h a p f r w)"
| "step (Ev_Bind6 h a p f r) w = world_of (Bind6 h a p f r w)"
| "step (Ev_SetTTL h v r) w = Return (snd (SetTTL h v r w))"
| "step (Ev_SetBroadcast h v r) w = Return (snd (SetBroadcast h v r w))"
| "step (Ev_SetMulticastTTL h v r) w = Return (snd (SetMulticastTTL h v r w))"
| "step (Ev_SetMulticastLoopback h v r) w = Return (snd (SetMulticastLoopback h v r w))"
| "step (Ev_AddMembership h a i r) w = Return (snd (AddMembership h a i r w))"
| "step (Ev_DropMembership h a i r) w = Return (snd (DropMembership h a i r w))"
| "step (Ev_Send h b off n p a r) w = world_of (Send h b off n p a r w)"
| "step (Ev_Send6 h b off n p a r) w = world_of (Send6 h b off n p a r w)"
| "step (Ev_RecvStart h r) w = Return (snd (RecvStart h r w))"
| "step (Ev_RecvStop h r) w = Return (snd (RecvStop h r w))"
| "step (Ev_GetSockName h a r) w = Return (snd (GetSockName h a r w))"
| "step (Ev_send_done i s e) w = loop_send_done i s e w"
| "step (Ev_recv h sz p n a f sl e) w = Return (loop_recv h sz p n a f sl e w)"

fun exec :: "event list \<Rightarrow> world \<Rightarrow> world run" where
  "exec [] w = Return w"
| "exec (ev # evs) w = (case step ev w of Abort \<Rightarrow> Abort | Return w1 \<Rightarrow> exec evs w1)"

text \<open>The completion notifications made so far for the request \<open>i\<close>.\<close>

definition completions :: "nat \<Rightarrow> world \<Rightarrow> callback list" where
  "completions i w =
     filter (\<lambda>c. cb_symbol c = oncomplete_sym \<and> cb_object c = ReqObject i) (callbacks w)"

text \<open>The receive notifications made so far for the socket \<open>h\<close>.\<close>

definition messages :: "nat \<Rightarrow> world \<Rightarrow> callback list" where
  "messages h w =
     filter (\<lambda>c. cb_symbol c = onmessage_sym \<and> cb_object c = UDPObject h) (callbacks w)"

text \<open>The life of a send request \<open>i\<close>, made on socket \<open>wrap\<close> with payload \<open>b\<close>.
  It is pending while the loop holds it: it is alive, dispatched, keeps the payload as
  hidden value, and no completion has been notified for it. It is completed when the
  loop holds it no longer, it has been destroyed, and exactly one completion has been
  notified, with the four arguments status, socket, request and payload. It is dropped
  when it was destroyed without ever being held: no completion has been notified.\<close>

definition pending :: "nat \<Rightarrow> nat \<Rightarrow> buffer \<Rightarrow> world \<Rightarrow> bool" where
  "pending i wrap b w \<longleftrightarrow>
     i < next_req w \<and> i \<in> set (send_queue w) \<and> completions i w = [] \<and>
     (case reqs w i of
        None \<Rightarrow> False
      | Some rw \<Rightarrow> sw_dispatched rw \<and> sw_handle rw = Some wrap \<and>
                   sw_hidden rw buffer_sym = Some (BufferObject b))"

definition completed :: "nat \<Rightarrow> nat \<Rightarrow> buffer \<Rightarrow> world \<Rightarrow> bool" where
  "completed i wrap b w \<longleftrightarrow>
     i < next_req w \<and> i \<notin> set (send_queue w) \<and> reqs w i = None \<and>
     (\<exists>s e. completions i w =
        [\<lparr>cb_object = ReqObject i, cb_symbol = oncomplete_sym,
          cb_argv = [Integer s, UDPObject wrap, ReqObject i, BufferObject b], cb_errno = e\<rparr>])"

definition dropped :: "nat \<Rightarrow> world \<Rightarrow> bool" where
  "dropped i w \<longleftrightarrow>
     i < next_req w \<and> i \<notin> set (send_queue w) \<and> reqs w i = None \<and> completions i w = []"

text \<open>Requests are numbered in the order of their creation: the loop holds no request,
  and no notification names one, that has not been created yet.\<close>

definition unused_ids :: "world \<Rightarrow> bool" where
  "unused_ids w \<longleftrightarrow>
     (\<forall>j \<in> set (send_queue w). j < next_req w) \<and>
     (\<forall>c \<in> set (callbacks w). \<forall>j. cb_object c = ReqObject j \<longrightarrow> j < next_req w)"

text \<open>Modelled from the spec: the event loop is libuv's, outside src/. A schedule is an
  unending sequence of events; \<open>run_upto\<close> is the run of its first \<open>k\<close> events. The
  process goes on when no event of the schedule ends it. The specification: the
  completion of a started request still fires, whatever happens to the socket; so in a
  schedule of a process that goes on, the loop reports the completion of every request
  it holds at some later point.\<close>

definition run_upto :: "(nat \<Rightarrow> event) \<Rightarrow> nat \<Rightarrow> world \<Rightarrow> world run" where
  "run_upto sched k w = exec (map sched [0..<k]) w"

definition goes_on :: "(nat \<Rightarrow> event) \<Rightarrow> world \<Rightarrow> bool" where
  "goes_on sched w \<longleftrightarrow> (\<forall>k. run_upto sched k w \<noteq> Abort)"

definition loop_reports :: "(nat \<Rightarrow> event) \<Rightarrow> world \<Rightarrow> bool" where
  "loop_reports sched w \<longleftrightarrow>
     (\<forall>k w' i. run_upto sched k w = Return w' \<longrightarrow> i \<in> set (send_queue w') \<longrightarrow>
        (\<exists>k' s e. k \<le> k' \<and> sched k' = Ev_send_done i s e))"

section \<open>Properties\<close>

subsection \<open>Unfolding the methods\<close>

lemmas method_defs =
  X_def SetTTL_def SetBroadcast_def SetMulticastTTL_def SetMulticastLoopback_def
  SetMembership_def AddMembership_def DropMembership_def RecvStart_def RecvStop_def
  GetSockName_def uv_call_os_def SetErrno_def uv_last_error_def MakeCallback_def

lemma OnAlloc_eq:
  "OnAlloc wrap sz ptr w =
     (\<lparr>base = ptr, len = sz\<rparr>, w\<lparr>slab_calls := slab_calls w @ [Allocate wrap sz]\<rparr>)"
  by (simp add: OnAlloc_def SlabAllocator_Allocate_def uv_buf_init_def)

lemma OnRecv_slab_calls:
  "slab_calls (OnRecv wrap nread buf addr flags slab_obj w) =
     slab_calls w @ [Shrink wrap (base buf) (if nread \<le> 0 then 0 else nat nread)]"
  by (simp add: OnRecv_def SlabAllocator_Shrink_def MakeCallback_def SetErrno_def)

lemma OnRecv_data:
  assumes "0 < nread"
  shows "callbacks (OnRecv wrap nread buf addr flags slab_obj w) =
          callbacks w @
            [\<lparr>cb_object = UDPObject wrap, cb_symbol = onmessage_sym,
              cb_argv = [UDPObject wrap, BufferObject slab_obj,
                         Integer ((int (base buf) - int (buf_data slab_obj)) mod 2 ^ 32),
                         Integer (nread mod 2 ^ 32), AddressObject addr],
              cb_errno = errno w\<rparr>]"
  using assms
  by (simp add: OnRecv_def SlabAllocator_Shrink_def MakeCallback_def NewFromUnsigned_def)

text \<open>A region that lies in a slab shorter than \<open>2 ^ 32\<close> bytes has an offset and a
  length that \<open>Integer::NewFromUnsigned\<close> does not cut.\<close>

lemma uint32_offset:
  assumes "buf_data slab_obj \<le> ptr" and "ptr + sz \<le> buf_data slab_obj + buf_length slab_obj"
    and "buf_length slab_obj < 2 ^ 32"
  shows "(int ptr - int (buf_data slab_obj)) mod 2 ^ 32 = int (ptr - buf_data slab_obj)"
proof -
  have "int ptr - int (buf_data slab_obj) = int (ptr - buf_data slab_obj)"
    using assms(1) by (rule of_nat_diff [symmetric])
  moreover have "ptr - buf_data slab_obj < 2 ^ 32"
    using assms by linarith
  then have "int (ptr - buf_data slab_obj) < 2 ^ 32"
    by (metis of_nat_less_iff of_nat_numeral of_nat_power)
  ultimately show ?thesis
    by (simp only: mod_pos_pos_trivial of_nat_0_le_iff)
qed

lemma uint32_nread:
  assumes "0 < nread" and "nread \<le> int sz" and "buf_data slab_obj \<le> ptr"
    and "ptr + sz \<le> buf_data slab_obj + buf_length slab_obj" and "buf_length slab_obj < 2 ^ 32"
  shows "nread mod 2 ^ 32 = nread"
proof -
  have "sz < 2 ^ 32" using assms(3,4,5) by linarith
  then have "int sz < 2 ^ 32"
    by (metis of_nat_less_iff of_nat_numeral of_nat_power)
  then have "nread < 2 ^ 32" using assms(2) by linarith
  then show ?thesis using assms(1) by (simp only: mod_pos_pos_trivial order_less_imp_le)
qed

subsection \<open>Arguments of send out of range\<close>

text \<open>
  Claim C3, as the code has it. A call of send whose arguments violate
  \<open>offset < Buffer::Length\<close> or \<open>length \<le> Buffer::Length - offset\<close> fails one of
  the two assertions of \<open>DoSend\<close> (lines 242 and 243): the process ends, before a
  \<open>SendWrap\<close> is made and before libuv is called. Nothing is returned to the caller.
\<close>

theorem DoSend_bad_range_aborts:
  "\<not> (offset < buf_length b \<and> n \<le> buf_length b - offset) \<Longrightarrow>
   DoSend wrap b offset n port address fam res w = Abort"
  by (auto simp add: DoSend_def)

theorem DoSend_bad_range_aborts_witness:
  "\<not> (5 < buf_length \<lparr>buf_id = 0, buf_data = 4096, buf_length = 3\<rparr>
      \<and> 1 \<le> buf_length \<lparr>buf_id = 0, buf_data = 4096, buf_length = 3\<rparr> - 5)
   \<and> DoSend 0 \<lparr>buf_id = 0, buf_data = 4096, buf_length = 3\<rparr> 5 1 8000 ''127.0.0.1'' AF_INET
        \<lparr>uv_r = 0, uv_e = \<lparr>code = UV_CODE 0, sys_errno = 0\<rparr>\<rparr> init_world = Abort"
  using DoSend_bad_range_aborts [of 5 "\<lparr>buf_id = 0, buf_data = 4096, buf_length = 3\<rparr>" 1 0 8000
      "''127.0.0.1''" AF_INET "\<lparr>uv_r = 0, uv_e = \<lparr>code = UV_CODE 0, sys_errno = 0\<rparr>\<rparr>" init_world]
  by simp

text \<open>The claim as the specification words it, that the violation reaches the caller as
  an error and the process goes on, fails: with an offset of 5 into a buffer of 3 bytes,
  \<open>Send\<close> returns nothing.\<close>

theorem DoSend_bad_range_counterexample:
  "\<not> (5 < buf_length \<lparr>buf_id = 0, buf_data = 4096, buf_length = 3\<rparr>) \<and>
   \<not> (\<exists>v w'. Send 0 \<lparr>buf_id = 0, buf_data = 4096, buf_length = 3\<rparr> 5 1 8000 ''127.0.0.1''
                \<lparr>uv_r = 0, uv_e = \<lparr>code = UV_CODE 0, sys_errno = 0\<rparr>\<rparr> init_world = Return (v, w'))"
  by (simp add: Send_def DoSend_def)

subsection \<open>The last error of failing methods\<close>

text \<open>Every method that reports a failure sets the errno to the last error of the loop
  first, \<open>RecvStop\<close> apart.\<close>

lemma failure_sets_errno:
  "DoBind wrap a p f fam res w = Return (Integer r, w') \<Longrightarrow> r \<noteq> 0 \<Longrightarrow>
     errno w' = Some (uv_last_error w')"
  "X fn wrap flag res w = (Integer r, w') \<Longrightarrow> r \<noteq> 0 \<Longrightarrow> errno w' = Some (uv_last_error w')"
  "SetMembership wrap a iface m res w = (Integer r, w') \<Longrightarrow> r \<noteq> 0 \<Longrightarrow>
     errno w' = Some (uv_last_error w')"
  "DoSend wrap b offset n p a fam res w = Return (Null, w') \<Longrightarrow>
     errno w' = Some (uv_last_error w')"
  "RecvStart wrap res w = (JSFalse, w') \<Longrightarrow> errno w' = Some (uv_last_error w')"
  "GetSockName wrap address res w = (Null, w') \<Longrightarrow> errno w' = Some (uv_last_error w')"
  by (auto simp add: DoBind_def uv_udp_bind_def uv_udp_bind6_def uv_udp_bind_os_def DoSend_def
      new_SendWrap_def SetHiddenValue_def Dispatched_def delete_req_def uv_udp_send_def
      uv_udp_send6_def uv_udp_send_os_def uv_udp_recv_start_def uv_buf_init_def method_defs
      Let_def split: family.splits option.splits if_splits)

text \<open>
  Claim C4 at \<open>RecvStop\<close> (lines 307 to 315): the method returns the \<open>int\<close> of
  \<open>uv_udp_recv_stop\<close> and never calls \<open>SetErrno\<close>. When libuv reports \<open>-1\<close>, the
  caller gets \<open>-1\<close> and the errno is what it was before the call, here unset.
\<close>

theorem RecvStop_failure_leaves_errno:
  "fst (RecvStop 0 \<lparr>uv_r = - 1, uv_e = \<lparr>code = UV_CODE 9, sys_errno = 9\<rparr>\<rparr> init_world) = Integer (- 1)
   \<and> errno (snd (RecvStop 0 \<lparr>uv_r = - 1, uv_e = \<lparr>code = UV_CODE 9, sys_errno = 9\<rparr>\<rparr> init_world)) = None"
  by (simp add: RecvStop_def uv_udp_recv_stop_def init_world_def)

subsection \<open>Receiving\<close>

text \<open>
  Claim C6. A receive event with \<open>nread = 0\<close> makes no call into JavaScript: the list
  of notifications after \<open>OnRecv\<close> is the list before it, also when the event comes
  through the loop after \<open>OnAlloc\<close>, and the errno is not touched.
\<close>

theorem OnRecv_zero_read_silent:
  "callbacks (OnRecv wrap 0 buf addr flags slab_obj w) = callbacks w
   \<and> messages h (OnRecv wrap 0 buf addr flags slab_obj w) = messages h w
   \<and> errno (OnRecv wrap 0 buf addr flags slab_obj w) = errno w
   \<and> callbacks (loop_recv wrap sz ptr 0 addr flags slab_obj e w) = callbacks w"
  by (simp add: OnRecv_def SlabAllocator_Shrink_def messages_def loop_recv_def OnAlloc_def
      SlabAllocator_Allocate_def)

text \<open>
  Claim C7. A receive event with \<open>nread < 0\<close> makes exactly one call into JavaScript,
  \<open>onmessage\<close> on the socket's object, whose only argument is that object: no buffer,
  no offset, no length, no address. The errno in force when the call is made is the last
  error of the loop: \<open>SetErrno\<close> has run before \<open>MakeCallback\<close>.
\<close>

theorem OnRecv_error_read:
  "nread < 0 \<Longrightarrow>
   callbacks (OnRecv wrap nread buf addr flags slab_obj w) =
     callbacks w @ [\<lparr>cb_object = UDPObject wrap, cb_symbol = onmessage_sym,
                     cb_argv = [UDPObject wrap], cb_errno = Some (uv_last_error w)\<rparr>]"
  by (simp add: OnRecv_def SlabAllocator_Shrink_def MakeCallback_def SetErrno_def uv_last_error_def)

theorem OnRecv_error_read_witness:
  "(- 1 :: int) < 0 \<and>
   callbacks (OnRecv 7 (- 1) \<lparr>base = 4096, len = 65536\<rparr> (SockAddr AF_INET [] 0) 0
                \<lparr>buf_id = 1, buf_data = 4096, buf_length = 1048576\<rparr> init_world) =
     [\<lparr>cb_object = UDPObject 7, cb_symbol = onmessage_sym,
       cb_argv = [UDPObject 7], cb_errno = Some \<lparr>code = UV_CODE 0, sys_errno = 0\<rparr>\<rparr>]"
  using OnRecv_error_read [of "- 1" 7 "\<lparr>base = 4096, len = 65536\<rparr>" "SockAddr AF_INET [] 0" 0
      "\<lparr>buf_id = 1, buf_data = 4096, buf_length = 1048576\<rparr>" init_world]
  by (simp add: init_world_def uv_last_error_def)

text \<open>
  Claim C10. \<open>OnAlloc\<close> asks the allocator for \<open>suggested_size\<close> bytes and hands the
  region out; the \<open>OnRecv\<close> that follows calls \<open>Shrink\<close> exactly once on that region,
  whatever \<open>nread\<close> is, so on the two early returns too: with size 0 when \<open>nread\<close> is
  zero or negative, with size \<open>nread\<close> otherwise. On a read of \<open>nread > 0\<close> bytes into
  a region that lies in the slab \<open>Shrink\<close> returns, the one notification carries the
  socket, that slab, the offset of the region in the slab, \<open>nread\<close> and the address.
\<close>

theorem OnRecv_returns_region:
  "slab_calls (snd (OnAlloc wrap sz ptr w)) = slab_calls w @ [Allocate wrap sz]
   \<and> slab_calls (OnRecv wrap nread (fst (OnAlloc wrap sz ptr w)) addr flags slab_obj
                  (snd (OnAlloc wrap sz ptr w))) =
       slab_calls w @ [Allocate wrap sz, Shrink wrap ptr (if nread \<le> 0 then 0 else nat nread)]
   \<and> (0 < nread \<and> nread \<le> int sz \<and> buf_data slab_obj \<le> ptr
        \<and> ptr + sz \<le> buf_data slab_obj + buf_length slab_obj \<and> buf_length slab_obj < 2 ^ 32 \<longrightarrow>
        callbacks (OnRecv wrap nread (fst (OnAlloc wrap sz ptr w)) addr flags slab_obj
                     (snd (OnAlloc wrap sz ptr w))) =
          callbacks w @
            [\<lparr>cb_object = UDPObject wrap, cb_symbol = onmessage_sym,
              cb_argv = [UDPObject wrap, BufferObject slab_obj,
                         Integer (int (ptr - buf_data slab_obj)), Integer nread,
                         AddressObject addr],
              cb_errno = errno w\<rparr>])"
proof (intro conjI impI)
  show "slab_calls (snd (OnAlloc wrap sz ptr w)) = slab_calls w @ [Allocate wrap sz]"
    by (simp add: OnAlloc_eq)
  show "slab_calls (OnRecv wrap nread (fst (OnAlloc wrap sz ptr w)) addr flags slab_obj
                  (snd (OnAlloc wrap sz ptr w))) =
       slab_calls w @ [Allocate wrap sz, Shrink wrap ptr (if nread \<le> 0 then 0 else nat nread)]"
    by (simp add: OnAlloc_eq OnRecv_slab_calls)
next
  assume h: "0 < nread \<and> nread \<le> int sz \<and> buf_data slab_obj \<le> ptr
        \<and> ptr + sz \<le> buf_data slab_obj + buf_length slab_obj \<and> buf_length slab_obj < 2 ^ 32"
  have off: "(int ptr - int (buf_data slab_obj)) mod 2 ^ 32 = int (ptr - buf_data slab_obj)"
    using h by (intro uint32_offset [of slab_obj ptr sz]) simp_all
  have n: "nread mod 2 ^ 32 = nread"
    using h by (intro uint32_nread [of nread sz slab_obj ptr]) simp_all
  have pos: "0 < nread" using h by simp
  show "callbacks (OnRecv wrap nread (fst (OnAlloc wrap sz ptr w)) addr flags slab_obj
                     (snd (OnAlloc wrap sz ptr w))) =
          callbacks w @
            [\<lparr>cb_object = UDPObject wrap, cb_symbol = onmessage_sym,
              cb_argv = [UDPObject wrap, BufferObject slab_obj,
                         Integer (int (ptr - buf_data slab_obj)), Integer nread,
                         AddressObject addr],
              cb_errno = errno w\<rparr>]"
    unfolding OnAlloc_eq fst_conv snd_conv OnRecv_data [OF pos] uv_buf_t.simps off n
    by simp
qed

theorem OnRecv_returns_region_witness:
  "(0 :: int) < 5 \<and> (5 :: int) \<le> int 65536 \<and> (4096 :: nat) \<le> 4224
   \<and> (4224 :: nat) + 65536 \<le> 4096 + 1048576 \<and> (1048576 :: nat) < 2 ^ 32
   \<and> slab_calls (OnRecv 7 5 (fst (OnAlloc 7 65536 4224 init_world)) (SockAddr AF_INET ''127.0.0.1'' 9)
                  0 \<lparr>buf_id = 1, buf_data = 4096, buf_length = 1048576\<rparr>
                  (snd (OnAlloc 7 65536 4224 init_world))) =
       [Allocate 7 65536, Shrink 7 4224 5]
   \<and> callbacks (OnRecv 7 5 (fst (OnAlloc 7 65536 4224 init_world)) (SockAddr AF_INET ''127.0.0.1'' 9)
                  0 \<lparr>buf_id = 1, buf_data = 4096, buf_length = 1048576\<rparr>
                  (snd (OnAlloc 7 65536 4224 init_world))) =
       [\<lparr>cb_object = UDPObject 7, cb_symbol = onmessage_sym,
         cb_argv = [UDPObject 7, BufferObject \<lparr>buf_id = 1, buf_data = 4096, buf_length = 1048576\<rparr>,
                    Integer 128, Integer 5, AddressObject (SockAddr AF_INET ''127.0.0.1'' 9)],
         cb_errno = None\<rparr>]"
  using OnRecv_returns_region [of 7 65536 4224 init_world 5 "SockAddr AF_INET ''127.0.0.1'' 9" 0
      "\<lparr>buf_id = 1, buf_data = 4096, buf_length = 1048576\<rparr>"]
  by (simp add: init_world_def)

subsection \<open>Multicast membership\<close>

text \<open>
  Claim C9. \<open>SetMembership\<close> passes an interface argument that is undefined or null to
  \<open>uv_udp_set_membership\<close> as the null pointer, and one that is a string as that string;
  so do \<open>AddMembership\<close> and \<open>DropMembership\<close>. The null pointer is not the empty
  string: the two calls differ.
\<close>

theorem SetMembership_interface:
  "uv_calls (snd (SetMembership wrap address ArgUndefined m res w)) =
     uv_calls w @ [Call_udp_set_membership wrap address None m]
   \<and> uv_calls (snd (SetMembership wrap address ArgNull m res w)) =
     uv_calls w @ [Call_udp_set_membership wrap address None m]
   \<and> uv_calls (snd (SetMembership wrap address (ArgString s) m res w)) =
     uv_calls w @ [Call_udp_set_membership wrap address (Some s) m]
   \<and> uv_calls (snd (AddMembership wrap address ArgUndefined res w)) =
     uv_calls w @ [Call_udp_set_membership wrap address None UV_JOIN_GROUP]
   \<and> uv_calls (snd (DropMembership wrap address ArgNull res w)) =
     uv_calls w @ [Call_udp_set_membership wrap address None UV_LEAVE_GROUP]
   \<and> uv_calls (snd (AddMembership wrap address (ArgString s) res w)) =
     uv_calls w @ [Call_udp_set_membership wrap address (Some s) UV_JOIN_GROUP]
   \<and> uv_calls (snd (DropMembership wrap address (ArgString s) res w)) =
     uv_calls w @ [Call_udp_set_membership wrap address (Some s) UV_LEAVE_GROUP]
   \<and> Call_udp_set_membership wrap address None m \<noteq> Call_udp_set_membership wrap address (Some []) m"
  by (simp add: method_defs)

subsection \<open>What a step of a run changes\<close>

lemma DoBind_quiet:
  assumes "DoBind wrap a p f fam res w = Return (v, w')"
  shows "next_req w' = next_req w \<and> send_queue w' = send_queue w \<and> reqs w' = reqs w
         \<and> callbacks w' = callbacks w"
  using assms
  by (auto simp add: DoBind_def uv_udp_bind_def uv_udp_bind6_def uv_udp_bind_os_def SetErrno_def
      split: family.splits option.splits if_splits)

lemma setters_quiet:
  "next_req (snd (X fn wrap flag res w)) = next_req w \<and>
   send_queue (snd (X fn wrap flag res w)) = send_queue w \<and>
   reqs (snd (X fn wrap flag res w)) = reqs w \<and>
   callbacks (snd (X fn wrap flag res w)) = callbacks w"
  "next_req (snd (SetMembership wrap a iface m res w)) = next_req w \<and>
   send_queue (snd (SetMembership wrap a iface m res w)) = send_queue w \<and>
   reqs (snd (SetMembership wrap a iface m res w)) = reqs w \<and>
   callbacks (snd (SetMembership wrap a iface m res w)) = callbacks w"
  "next_req (snd (RecvStart wrap res w)) = next_req w \<and>
   send_queue (snd (RecvStart wrap res w)) = send_queue w \<and>
   reqs (snd (RecvStart wrap res w)) = reqs w \<and>
   callbacks (snd (RecvStart wrap res w)) = callbacks w"
  "next_req (snd (RecvStop wrap res w)) = next_req w \<and>
   send_queue (snd (RecvStop wrap res w)) = send_queue w \<and>
   reqs (snd (RecvStop wrap res w)) = reqs w \<and>
   callbacks (snd (RecvStop wrap res w)) = callbacks w"
  "next_req (snd (GetSockName wrap address res w)) = next_req w \<and>
   send_queue (snd (GetSockName wrap address res w)) = send_queue w \<and>
   reqs (snd (GetSockName wrap address res w)) = reqs w \<and>
   callbacks (snd (GetSockName wrap address res w)) = callbacks w"
  by (simp_all add: method_defs uv_udp_recv_start_def uv_udp_recv_stop_def Let_def split_def)

lemma loop_recv_quiet:
  "next_req (loop_recv h sz p n a f sl e w) = next_req w \<and>
   send_queue (loop_recv h sz p n a f sl e w) = send_queue w \<and>
   reqs (loop_recv h sz p n a f sl e w) = reqs w \<and>
   (callbacks (loop_recv h sz p n a f sl e w) = callbacks w \<or>
    (\<exists>c. callbacks (loop_recv h sz p n a f sl e w) = callbacks w @ [c] \<and> cb_object c = UDPObject h))"
  by (simp add: loop_recv_def OnAlloc_eq OnRecv_def SlabAllocator_Shrink_def MakeCallback_def
      SetErrno_def Let_def)

lemma DoSend_effect:
  assumes "DoSend wrap b offset n port address fam res w = Return (v, w')"
  shows "next_req w' = Suc (next_req w) \<and> callbacks w' = callbacks w \<and>
         (if uv_r res = 0
          then v = ReqObject (next_req w) \<and> send_queue w' = send_queue w @ [next_req w] \<and>
               reqs w' = (reqs w)(next_req w \<mapsto>
                 \<lparr>sw_hidden = [buffer_sym \<mapsto> BufferObject b], sw_handle = Some wrap,
                  sw_dispatched = True\<rparr>)
          else v = Null \<and> send_queue w' = send_queue w \<and> reqs w' = (reqs w)(next_req w := None)
               \<and> errno w' = Some (uv_e res))"
  using assms
  by (auto simp add: DoSend_def new_SendWrap_def SetHiddenValue_def Dispatched_def delete_req_def
      uv_udp_send_def uv_udp_send6_def uv_udp_send_os_def SetErrno_def uv_last_error_def Let_def
      split: family.splits if_splits)

lemma DoSend_returns:
  assumes "offset < buf_length b" and "n \<le> buf_length b - offset"
    and "fam = AF_INET \<or> fam = AF_INET6"
  shows "\<exists>v w'. DoSend wrap b offset n port address fam res w = Return (v, w')"
  using assms
  by (auto simp add: DoSend_def new_SendWrap_def Let_def split_def
      split: family.splits option.splits)

lemma loop_send_done_effect:
  assumes "loop_send_done i s e w = Return w'" and "i \<in> set (send_queue w)"
  shows "\<exists>rw h. reqs w i = Some rw \<and> sw_handle rw = Some h \<and> sw_dispatched rw \<and>
           next_req w' = next_req w \<and> send_queue w' = removeAll i (send_queue w) \<and>
           reqs w' = (reqs w)(i := None) \<and>
           callbacks w' = callbacks w @
             [\<lparr>cb_object = ReqObject i, cb_symbol = oncomplete_sym,
               cb_argv = [Integer s, UDPObject h, ReqObject i, GetHiddenValue rw buffer_sym],
               cb_errno = (if s \<noteq> 0 then Some e else errno w)\<rparr>]"
  using assms
  by (auto simp add: loop_send_done_def OnSend_def MakeCallback_def SetErrno_def uv_last_error_def
      delete_req_def Let_def split: option.splits if_splits)

lemma loop_send_done_returns:
  assumes "reqs w i = Some rw" and "sw_handle rw = Some h" and "sw_dispatched rw"
  shows "\<exists>w'. loop_send_done i s e w = Return w'"
  using assms by (simp add: loop_send_done_def OnSend_def Let_def)


text \<open>What one step of a run does to the requests and to the notifications.\<close>

lemma step_summary:
  assumes "step ev w = Return w'"
  shows "(next_req w' = next_req w \<and> send_queue w' = send_queue w \<and> reqs w' = reqs w \<and>
          (callbacks w' = callbacks w \<or>
           (\<exists>c h. callbacks w' = callbacks w @ [c] \<and> cb_object c = UDPObject h)))
       \<or> (next_req w' = Suc (next_req w) \<and> callbacks w' = callbacks w \<and>
          ((\<exists>rw. send_queue w' = send_queue w @ [next_req w] \<and>
                 reqs w' = (reqs w)(next_req w \<mapsto> rw)) \<or>
           (send_queue w' = send_queue w \<and> reqs w' = (reqs w)(next_req w := None))))
       \<or> (\<exists>i s e rw h. ev = Ev_send_done i s e \<and> i \<in> set (send_queue w) \<and>
            reqs w i = Some rw \<and> sw_handle rw = Some h \<and> sw_dispatched rw \<and>
            next_req w' = next_req w \<and> send_queue w' = removeAll i (send_queue w) \<and>
            reqs w' = (reqs w)(i := None) \<and>
            callbacks w' = callbacks w @
              [\<lparr>cb_object = ReqObject i, cb_symbol = oncomplete_sym,
                cb_argv = [Integer s, UDPObject h, ReqObject i, GetHiddenValue rw buffer_sym],
                cb_errno = (if s \<noteq> 0 then Some e else errno w)\<rparr>])"
proof (cases ev)
  case (Ev_Bind h a p f r)
  then show ?thesis using assms DoBind_quiet [of h a p f AF_INET r w]
    by (auto simp add: Bind_def world_of_def split: run.splits)
next
  case (Ev_Bind6 h a p f r)
  then show ?thesis using assms DoBind_quiet [of h a p f AF_INET6 r w]
    by (auto simp add: Bind6_def world_of_def split: run.splits)
next
  case (Ev_SetTTL h v r)
  then show ?thesis using assms setters_quiet(1) [of Call_udp_set_ttl h v r w]
    by (auto simp add: SetTTL_def)
next
  case (Ev_SetBroadcast h v r)
  then show ?thesis using assms setters_quiet(1) [of Call_udp_set_broadcast h v r w]
    by (auto simp add: SetBroadcast_def)
next
  case (Ev_SetMulticastTTL h v r)
  then show ?thesis using assms setters_quiet(1) [of Call_udp_set_multicast_ttl h v r w]
    by (auto simp add: SetMulticastTTL_def)
next
  case (Ev_SetMulticastLoopback h v r)
  then show ?thesis using assms setters_quiet(1) [of Call_udp_set_multicast_loop h v r w]
    by (auto simp add: SetMulticastLoopback_def)
next
  case (Ev_AddMembership h a i r)
  then show ?thesis using assms setters_quiet(2) [of h a i UV_JOIN_GROUP r w]
    by (auto simp add: AddMembership_def)
next
  case (Ev_DropMembership h a i r)
  then show ?thesis using assms setters_quiet(2) [of h a i UV_LEAVE_GROUP r w]
    by (auto simp add: DropMembership_def)
next
  case (Ev_Send h b off n p a r)
  then obtain v where "DoSend h b off n p a AF_INET r w = Return (v, w')"
    using assms by (auto simp add: Send_def world_of_def split: run.splits)
  from DoSend_effect [OF this] show ?thesis
    by (cases "uv_r r = 0") auto
next
  case (Ev_Send6 h b off n p a r)
  then obtain v where "DoSend h b off n p a AF_INET6 r w = Return (v, w')"
    using assms by (auto simp add: Send6_def world_of_def split: run.splits)
  from DoSend_effect [OF this] show ?thesis
    by (cases "uv_r r = 0") auto
next
  case (Ev_RecvStart h r)
  then show ?thesis using assms setters_quiet(3) [of h r w] by auto
next
  case (Ev_RecvStop h r)
  then show ?thesis using assms setters_quiet(4) [of h r w] by auto
next
  case (Ev_GetSockName h a r)
  then show ?thesis using assms setters_quiet(5) [of h a r w] by auto
next
  case (Ev_send_done i s e)
  show ?thesis
  proof (cases "i \<in> set (send_queue w)")
    case True
    have "loop_send_done i s e w = Return w'" using assms Ev_send_done by simp
    from loop_send_done_effect [OF this True] show ?thesis
      using Ev_send_done True by blast
  next
    case False
    then have "w' = w" using assms Ev_send_done by (simp add: loop_send_done_def)
    then show ?thesis by simp
  qed
next
  case (Ev_recv h sz p n a f sl e)
  then have "w' = loop_recv h sz p n a f sl e w" using assms by simp
  then show ?thesis using loop_recv_quiet [of h sz p n a f sl e w] by auto
qed

lemma step_unused_ids:
  assumes "step ev w = Return w'" and "unused_ids w"
  shows "unused_ids w'"
  using step_summary [OF assms(1)] assms(2)
  unfolding unused_ids_def
  by (elim disjE conjE exE) (auto simp add: less_Suc_eq)

text \<open>The same, as a case rule.\<close>

lemma step_cases:
  assumes "step ev w = Return w'"
  obtains
    (quiet) "next_req w' = next_req w" "send_queue w' = send_queue w" "reqs w' = reqs w"
      "\<And>i. completions i w' = completions i w"
  | (queued) rw where "next_req w' = Suc (next_req w)"
      "send_queue w' = send_queue w @ [next_req w]" "reqs w' = (reqs w)(next_req w \<mapsto> rw)"
      "\<And>i. completions i w' = completions i w"
  | (failed) "next_req w' = Suc (next_req w)" "send_queue w' = send_queue w"
      "reqs w' = (reqs w)(next_req w := None)" "\<And>i. completions i w' = completions i w"
  | (fin) j s e rw h where "j \<in> set (send_queue w)" "reqs w j = Some rw"
      "sw_handle rw = Some h" "next_req w' = next_req w"
      "send_queue w' = removeAll j (send_queue w)" "reqs w' = (reqs w)(j := None)"
      "callbacks w' = callbacks w @
              [\<lparr>cb_object = ReqObject j, cb_symbol = oncomplete_sym,
                cb_argv = [Integer s, UDPObject h, ReqObject j, GetHiddenValue rw buffer_sym],
                cb_errno = (if s \<noteq> 0 then Some e else errno w)\<rparr>]"
  using step_summary [OF assms]
proof (elim disjE, goal_cases)
  case 1
  have "completions i w' = completions i w" for i
    using 1(5) by (auto simp add: completions_def)
  then show ?case using 1(5) by (intro 1(1)) simp_all
next
  case 2
  have c: "completions i w' = completions i w" for i
    using 2(5) by (simp add: completions_def)
  from 2(5) have "(\<exists>rw. send_queue w' = send_queue w @ [next_req w] \<and>
                 reqs w' = (reqs w)(next_req w \<mapsto> rw)) \<or>
           (send_queue w' = send_queue w \<and> reqs w' = (reqs w)(next_req w := None))"
    by simp
  then show ?case
  proof
    assume "\<exists>rw. send_queue w' = send_queue w @ [next_req w] \<and>
                 reqs w' = (reqs w)(next_req w \<mapsto> rw)"
    then obtain rw where "send_queue w' = send_queue w @ [next_req w]"
      "reqs w' = (reqs w)(next_req w \<mapsto> rw)" by (elim exE conjE)
    then show ?case using 2(5) c by (intro 2(2) [of rw]) simp_all
  next
    assume "send_queue w' = send_queue w \<and> reqs w' = (reqs w)(next_req w := None)"
    then show ?case using 2(5) c by (intro 2(3)) simp_all
  qed
next
  case 3
  then obtain i s e rw h where f: "i \<in> set (send_queue w)"
            "reqs w i = Some rw" "sw_handle rw = Some h"
            "next_req w' = next_req w" "send_queue w' = removeAll i (send_queue w)"
            "reqs w' = (reqs w)(i := None)"
            "callbacks w' = callbacks w @
              [\<lparr>cb_object = ReqObject i, cb_symbol = oncomplete_sym,
                cb_argv = [Integer s, UDPObject h, ReqObject i, GetHiddenValue rw buffer_sym],
                cb_errno = (if s \<noteq> 0 then Some e else errno w)\<rparr>]"
    by (elim exE conjE)
  show ?case by (rule 3(4) [OF f])
qed

subsection \<open>The life of a request along a run\<close>

lemma completions_fin:
  assumes "callbacks w' = callbacks w @
              [\<lparr>cb_object = ReqObject j, cb_symbol = oncomplete_sym, cb_argv = argv, cb_errno = eo\<rparr>]"
  shows "completions i w' =
           completions i w @
             (if j = i then [\<lparr>cb_object = ReqObject j, cb_symbol = oncomplete_sym,
                               cb_argv = argv, cb_errno = eo\<rparr>] else [])"
  using assms by (simp add: completions_def)

lemma step_pending:
  assumes "step ev w = Return w'" and "pending i wrap b w"
  shows "pending i wrap b w' \<or> completed i wrap b w'"
proof -
  from assms(2) obtain rw where p:
    "i < next_req w" "i \<in> set (send_queue w)" "completions i w = []" "reqs w i = Some rw"
    "sw_dispatched rw" "sw_handle rw = Some wrap" "sw_hidden rw buffer_sym = Some (BufferObject b)"
    by (cases "reqs w i") (simp_all add: pending_def)
  from assms(1) show ?thesis
  proof (cases rule: step_cases)
    case quiet
    with p have "pending i wrap b w'" by (simp add: pending_def)
    then show ?thesis ..
  next
    case (queued rw')
    moreover have "i \<noteq> next_req w" using p(1) by simp
    ultimately have "pending i wrap b w'" using p by (simp add: pending_def)
    then show ?thesis ..
  next
    case failed
    moreover have "i \<noteq> next_req w" using p(1) by simp
    ultimately have "pending i wrap b w'" using p by (simp add: pending_def)
    then show ?thesis ..
  next
    case (fin j s e rw' h)
    show ?thesis
    proof (cases "j = i")
      case True
      then have "rw' = rw" and "h = wrap" using fin(2,3) p(4,6) by simp_all
      then have "completions i w' =
          [\<lparr>cb_object = ReqObject i, cb_symbol = oncomplete_sym,
            cb_argv = [Integer s, UDPObject wrap, ReqObject i, BufferObject b],
            cb_errno = (if s \<noteq> 0 then Some e else errno w)\<rparr>]"
        using completions_fin [OF fin(7), of i] True p(3,7) by (simp add: GetHiddenValue_def)
      then have "completed i wrap b w'"
        using True fin(4-6) p(1) by (simp add: completed_def)
      then show ?thesis ..
    next
      case False
      then have "completions i w' = completions i w"
        using completions_fin [OF fin(7), of i] by simp
      then have "pending i wrap b w'"
        using False fin(4-6) p by (simp add: pending_def)
      then show ?thesis ..
    qed
  qed
qed

lemma step_completed:
  assumes "step ev w = Return w'" and "completed i wrap b w"
  shows "completed i wrap b w'"
proof -
  from assms(2) have c: "i < next_req w" "i \<notin> set (send_queue w)" "reqs w i = None"
    "\<exists>s e. completions i w =
        [\<lparr>cb_object = ReqObject i, cb_symbol = oncomplete_sym,
          cb_argv = [Integer s, UDPObject wrap, ReqObject i, BufferObject b], cb_errno = e\<rparr>]"
    by (simp_all add: completed_def)
  from assms(1) show ?thesis
  proof (cases rule: step_cases)
    case quiet
    with c show ?thesis by (simp add: completed_def)
  next
    case (queued rw')
    moreover have "i \<noteq> next_req w" using c(1) by simp
    ultimately show ?thesis using c by (simp add: completed_def)
  next
    case failed
    moreover have "i \<noteq> next_req w" using c(1) by simp
    ultimately show ?thesis using c by (simp add: completed_def)
  next
    case (fin j s e rw' h)
    have "j \<noteq> i" using fin(1) c(2) by auto
    then have "completions i w' = completions i w"
      using completions_fin [OF fin(7), of i] by simp
    then show ?thesis using fin(4-6) c by (simp add: completed_def)
  qed
qed

lemma step_dropped:
  assumes "step ev w = Return w'" and "dropped i w"
  shows "dropped i w'"
proof -
  from assms(2) have c:
    "i < next_req w" "i \<notin> set (send_queue w)" "reqs w i = None" "completions i w = []"
    by (simp_all add: dropped_def)
  from assms(1) show ?thesis
  proof (cases rule: step_cases)
    case quiet
    with c show ?thesis by (simp add: dropped_def)
  next
    case (queued rw')
    moreover have "i \<noteq> next_req w" using c(1) by simp
    ultimately show ?thesis using c by (simp add: dropped_def)
  next
    case failed
    moreover have "i \<noteq> next_req w" using c(1) by simp
    ultimately show ?thesis using c by (simp add: dropped_def)
  next
    case (fin j s e rw' h)
    have "j \<noteq> i" using fin(1) c(2) by auto
    then have "completions i w' = completions i w"
      using completions_fin [OF fin(7), of i] by simp
    then show ?thesis using fin(4-6) c by (simp add: dropped_def)
  qed
qed

lemma exec_unused_ids:
  "exec evs w = Return w' \<Longrightarrow> unused_ids w \<Longrightarrow> unused_ids w'"
  by (induction evs arbitrary: w) (auto split: run.splits dest: step_unused_ids)

lemma exec_completed:
  "exec evs w = Return w' \<Longrightarrow> completed i wrap b w \<Longrightarrow> completed i wrap b w'"
  by (induction evs arbitrary: w) (auto split: run.splits dest: step_completed)

lemma exec_dropped:
  "exec evs w = Return w' \<Longrightarrow> dropped i w \<Longrightarrow> dropped i w'"
  by (induction evs arbitrary: w) (auto split: run.splits dest: step_dropped)

lemma exec_pending:
  "exec evs w = Return w' \<Longrightarrow> pending i wrap b w \<Longrightarrow>
   pending i wrap b w' \<or> completed i wrap b w'"
proof (induction evs arbitrary: w)
  case Nil
  then show ?case by simp
next
  case (Cons ev evs)
  then obtain w1 where s: "step ev w = Return w1" and r: "exec evs w1 = Return w'"
    by (auto split: run.splits)
  from step_pending [OF s Cons.prems(2)] show ?case
  proof
    assume "pending i wrap b w1"
    then show ?thesis using Cons.IH [OF r] by simp
  next
    assume "completed i wrap b w1"
    then show ?thesis using exec_completed [OF r] by simp
  qed
qed

lemma unused_ids_init: "unused_ids init_world"
  by (simp add: unused_ids_def init_world_def)

subsection \<open>A request from its creation on\<close>

lemma DoSend_pending:
  assumes "unused_ids w0" and "DoSend wrap b offset n port address fam res w0 = Return (v, w1)"
    and "uv_r res = 0"
  shows "v = ReqObject (next_req w0) \<and> pending (next_req w0) wrap b w1"
proof -
  from DoSend_effect [OF assms(2)] assms(3) have e:
    "next_req w1 = Suc (next_req w0)" "callbacks w1 = callbacks w0" "v = ReqObject (next_req w0)"
    "send_queue w1 = send_queue w0 @ [next_req w0]"
    "reqs w1 = (reqs w0)(next_req w0 \<mapsto>
                 \<lparr>sw_hidden = [buffer_sym \<mapsto> BufferObject b], sw_handle = Some wrap,
                  sw_dispatched = True\<rparr>)"
    by simp_all
  have "completions (next_req w0) w0 = []"
    using assms(1) by (auto simp add: unused_ids_def completions_def filter_empty_conv)
  then have "completions (next_req w0) w1 = []"
    using e(2) by (simp add: completions_def)
  then show ?thesis using e by (simp add: pending_def)
qed

lemma DoSend_dropped:
  assumes "unused_ids w0" and "DoSend wrap b offset n port address fam res w0 = Return (v, w1)"
    and "uv_r res \<noteq> 0"
  shows "v = Null \<and> dropped (next_req w0) w1"
proof -
  from DoSend_effect [OF assms(2)] assms(3) have e:
    "next_req w1 = Suc (next_req w0)" "callbacks w1 = callbacks w0" "v = Null"
    "send_queue w1 = send_queue w0" "reqs w1 = (reqs w0)(next_req w0 := None)"
    by simp_all
  have "completions (next_req w0) w0 = []"
    using assms(1) by (auto simp add: unused_ids_def completions_def filter_empty_conv)
  then have "completions (next_req w0) w1 = []"
    using e(2) by (simp add: completions_def)
  moreover have "next_req w0 \<notin> set (send_queue w0)"
    using assms(1) by (auto simp add: unused_ids_def)
  ultimately show ?thesis using e by (simp add: dropped_def)
qed

lemma pending_completes:
  assumes "pending i wrap b w"
  shows "\<exists>w'. loop_send_done i s e w = Return w' \<and>
           callbacks w' = callbacks w @
             [\<lparr>cb_object = ReqObject i, cb_symbol = oncomplete_sym,
               cb_argv = [Integer s, UDPObject wrap, ReqObject i, BufferObject b],
               cb_errno = (if s \<noteq> 0 then Some e else errno w)\<rparr>] \<and>
           reqs w' i = None \<and> completed i wrap b w'"
proof -
  from assms obtain rw where p:
    "i < next_req w" "i \<in> set (send_queue w)" "completions i w = []" "reqs w i = Some rw"
    "sw_dispatched rw" "sw_handle rw = Some wrap" "sw_hidden rw buffer_sym = Some (BufferObject b)"
    by (cases "reqs w i") (simp_all add: pending_def)
  from loop_send_done_returns [OF p(4,6,5)] obtain w' where r: "loop_send_done i s e w = Return w'"
    by blast
  from loop_send_done_effect [OF r p(2)] p(4,6,7) have e:
    "next_req w' = next_req w" "send_queue w' = removeAll i (send_queue w)"
    "reqs w' = (reqs w)(i := None)"
    "callbacks w' = callbacks w @
             [\<lparr>cb_object = ReqObject i, cb_symbol = oncomplete_sym,
               cb_argv = [Integer s, UDPObject wrap, ReqObject i, BufferObject b],
               cb_errno = (if s \<noteq> 0 then Some e else errno w)\<rparr>]"
    by (auto simp add: GetHiddenValue_def)
  have "completed i wrap b w'"
    using completions_fin [OF e(4), of i] e(1-3) p(1,3) by (simp add: completed_def)
  with r e show ?thesis by simp
qed

subsection \<open>Schedules\<close>

lemma exec_append:
  "exec (xs @ ys) w = (case exec xs w of Abort \<Rightarrow> Abort | Return w1 \<Rightarrow> exec ys w1)"
  by (induction xs arbitrary: w) (auto split: run.splits)

lemma run_upto_0: "run_upto sched 0 w = Return w"
  by (simp add: run_upto_def)

lemma run_upto_Suc:
  "run_upto sched (Suc k) w =
     (case run_upto sched k w of Abort \<Rightarrow> Abort | Return w1 \<Rightarrow> step (sched k) w1)"
  by (simp add: run_upto_def exec_append split: run.splits)

lemma run_upto_add:
  "run_upto sched (k + m) w =
     (case run_upto sched k w of Abort \<Rightarrow> Abort
      | Return w1 \<Rightarrow> exec (map sched [k..<k + m]) w1)"
proof -
  have "[0..<k + m] = [0..<k] @ [k..<k + m]"
    by (rule upt_add_eq_append) simp
  then show ?thesis by (simp add: run_upto_def exec_append)
qed

lemma pending_eventually:
  assumes p: "pending i wrap b w1" and g: "goes_on sched w1" and l: "loop_reports sched w1"
  shows "\<exists>k. \<forall>k'\<ge>k. \<exists>w. run_upto sched k' w1 = Return w \<and> completed i wrap b w"
proof -
  have ret: "\<exists>w. run_upto sched j w1 = Return w" for j
  proof (cases "run_upto sched j w1")
    case Abort
    then show ?thesis using g unfolding goes_on_def by blast
  next
    case (Return w)
    then show ?thesis by blast
  qed
  have iq: "i \<in> set (send_queue w1)" using p by (simp add: pending_def)
  have "\<exists>k' st e. 0 \<le> k' \<and> sched k' = Ev_send_done i st e"
    using l [unfolded loop_reports_def, rule_format, OF run_upto_0 iq] .
  then obtain k st e where k: "sched k = Ev_send_done i st e" by blast
  from ret obtain wk where wk: "run_upto sched k w1 = Return wk" by blast
  from ret obtain wk' where wk': "run_upto sched (Suc k) w1 = Return wk'" by blast
  have stp: "step (Ev_send_done i st e) wk = Return wk'"
    using wk' unfolding run_upto_Suc wk k by simp
  have ex: "exec (map sched [0..<k]) w1 = Return wk" using wk unfolding run_upto_def .
  have c: "completed i wrap b wk'"
    using exec_pending [OF ex p]
  proof
    assume "pending i wrap b wk"
    from pending_completes [OF this, of st e] obtain w'
      where "loop_send_done i st e wk = Return w'" and "completed i wrap b w'" by blast
    moreover have "loop_send_done i st e wk = Return wk'" using stp by simp
    ultimately show ?thesis by simp
  next
    assume "completed i wrap b wk"
    from step_completed [OF stp this] show ?thesis .
  qed
  have "\<exists>w. run_upto sched k' w1 = Return w \<and> completed i wrap b w" if "Suc k \<le> k'" for k'
  proof -
    from le_Suc_ex [OF that] obtain m where m: "k' = Suc k + m" by blast
    from ret obtain w where w: "run_upto sched (Suc k + m) w1 = Return w" by blast
    have "exec (map sched [Suc k..<Suc k + m]) wk' = Return w"
      using w unfolding run_upto_add wk' by (simp only: run.simps)
    from exec_completed [OF this c] w m show ?thesis by blast
  qed
  then show ?thesis by blast
qed

lemma report_schedule:
  assumes p: "pending i wrap b w1" and q: "send_queue w1 = [i]"
  shows "goes_on (\<lambda>k. Ev_send_done i st e) w1 \<and> loop_reports (\<lambda>k. Ev_send_done i st e) w1"
proof -
  from pending_completes [OF p, of st e] obtain w2
    where w2: "loop_send_done i st e w1 = Return w2" and c: "completed i wrap b w2" by blast
  have nq: "i \<notin> set (send_queue w2)" using c by (simp add: completed_def)
  have idle: "loop_send_done i st e w2 = Return w2" using nq by (simp add: loop_send_done_def)
  have r: "run_upto (\<lambda>k. Ev_send_done i st e) (Suc k) w1 = Return w2" for k
  proof (induction k)
    case 0
    show ?case unfolding run_upto_Suc run_upto_0 using w2 by simp
  next
    case (Suc k)
    show ?case unfolding run_upto_Suc [of _ "Suc k"] Suc using idle by simp
  qed
  have cases: "run_upto (\<lambda>k. Ev_send_done i st e) k w1 = Return w1 \<or>
               run_upto (\<lambda>k. Ev_send_done i st e) k w1 = Return w2" for k
    by (cases k) (simp_all add: run_upto_0 r)
  have g: "goes_on (\<lambda>k. Ev_send_done i st e) w1"
    unfolding goes_on_def using cases by (metis run.distinct(1))
  have l: "loop_reports (\<lambda>k. Ev_send_done i st e) w1"
    unfolding loop_reports_def
  proof (intro allI impI)
    fix k w' j
    assume a: "run_upto (\<lambda>k. Ev_send_done i st e) k w1 = Return w'"
      and j: "j \<in> set (send_queue w')"
    from cases [of k] a have "w' = w1 \<or> w' = w2" by auto
    moreover have "send_queue w2 = []"
      using loop_send_done_effect [OF w2] q by auto
    ultimately have "j = i" using j q by auto
    then show "\<exists>k' s' e'. k \<le> k' \<and> Ev_send_done i st e = Ev_send_done j s' e'"
      by blast
  qed
  from g l show ?thesis ..
qed

subsection \<open>The two outcomes of send\<close>

text \<open>
  Claim C1, as the code has it. The arguments that \<open>DoSend\<close> accepts are those with
  \<open>offset < Buffer::Length\<close> and \<open>length \<le> Buffer::Length - offset\<close>. For them, in
  every world a run from the initial one reaches, \<open>Send\<close> and \<open>Send6\<close> return, make
  no notification themselves, and exactly one of two things holds. Either libuv
  started the transmission: the method returns the request's object, and along every
  run that follows the request is pending, in which case the loop's report of its
  completion returns and makes it completed, or it is completed: exactly one
  completion notification has been made for it, with the payload of the call; and in
  every schedule in which the process goes on and the loop reports the completions of
  the requests it holds, there is a point from which on the request is completed, so
  the one notification is eventually made. Or libuv failed to start it: the method
  returns \<open>Null\<close>, the request is destroyed, and along every run that follows no
  completion notification is made for it.
\<close>

theorem send_outcomes:
  assumes "exec evs0 init_world = Return w0"
    and "offset < buf_length b" and "n \<le> buf_length b - offset"
    and "fam = AF_INET \<or> fam = AF_INET6"
  shows "\<exists>v w1. DoSend wrap b offset n port address fam res w0 = Return (v, w1) \<and>
           callbacks w1 = callbacks w0 \<and>
           (if uv_r res = 0
            then v = ReqObject (next_req w0) \<and>
                 (\<forall>evs w. exec evs w1 = Return w \<longrightarrow>
                    (pending (next_req w0) wrap b w \<and>
                     (\<forall>s e. \<exists>w'. step (Ev_send_done (next_req w0) s e) w = Return w' \<and>
                                completed (next_req w0) wrap b w'))
                    \<or> completed (next_req w0) wrap b w) \<and>
                 (\<forall>sched. goes_on sched w1 \<and> loop_reports sched w1 \<longrightarrow>
                    (\<exists>k. \<forall>k'\<ge>k. \<exists>w. run_upto sched k' w1 = Return w \<and>
                                     completed (next_req w0) wrap b w))
            else v = Null \<and> reqs w1 (next_req w0) = None \<and>
                 (\<forall>evs w. exec evs w1 = Return w \<longrightarrow> dropped (next_req w0) w))"
proof -
  have u: "unused_ids w0" using exec_unused_ids [OF assms(1) unused_ids_init] .
  from DoSend_returns [OF assms(2-4)] obtain v w1
    where d: "DoSend wrap b offset n port address fam res w0 = Return (v, w1)" by blast
  have cb: "callbacks w1 = callbacks w0" using DoSend_effect [OF d] by simp
  show ?thesis
  proof (cases "uv_r res = 0")
    case True
    from DoSend_pending [OF u d True] have v: "v = ReqObject (next_req w0)"
      and p: "pending (next_req w0) wrap b w1" by simp_all
    have "(pending (next_req w0) wrap b w \<and>
            (\<forall>s e. \<exists>w'. step (Ev_send_done (next_req w0) s e) w = Return w' \<and>
                       completed (next_req w0) wrap b w'))
          \<or> completed (next_req w0) wrap b w"
      if "exec evs w1 = Return w" for evs w
      using exec_pending [OF that p] pending_completes [of "next_req w0" wrap b w] by auto
    moreover have "\<exists>k. \<forall>k'\<ge>k. \<exists>w. run_upto sched k' w1 = Return w \<and>
                                 completed (next_req w0) wrap b w"
      if "goes_on sched w1 \<and> loop_reports sched w1" for sched
      using pending_eventually [OF p, of sched] that by blast
    ultimately show ?thesis using d cb v True by simp
  next
    case False
    from DoSend_dropped [OF u d False] have v: "v = Null"
      and p: "dropped (next_req w0) w1" by simp_all
    have "dropped (next_req w0) w" if "exec evs w1 = Return w" for evs w
      using exec_dropped [OF that p] .
    moreover have "reqs w1 (next_req w0) = None" using p by (simp add: dropped_def)
    ultimately show ?thesis using d cb v False by simp
  qed
qed

text \<open>The claim as the specification words it takes every triple with
  \<open>offset + length \<le> Buffer::Length\<close> for valid. It fails where the offset is the
  length of the buffer and nothing is sent: the first assertion of \<open>DoSend\<close> ends the
  process, and send has neither outcome.\<close>

theorem send_empty_tail_counterexample:
  "3 + 0 \<le> buf_length \<lparr>buf_id = 0, buf_data = 4096, buf_length = 3\<rparr> \<and>
   Send 0 \<lparr>buf_id = 0, buf_data = 4096, buf_length = 3\<rparr> 3 0 8000 ''127.0.0.1''
     \<lparr>uv_r = 0, uv_e = \<lparr>code = UV_CODE 0, sys_errno = 0\<rparr>\<rparr> init_world = Abort"
  by (simp add: Send_def DoSend_def)


subsection \<open>The completion of a send\<close>

text \<open>
  Claim C5. Take a send that returned the object of request \<open>i\<close>, made on socket
  \<open>wrap\<close> with payload \<open>b\<close>, and any run after it at whose end the loop still holds
  the request. No completion has been notified for \<open>i\<close> so far. When the loop
  reports the completion with \<open>status\<close>, \<open>OnSend\<close> returns and makes exactly one
  call into JavaScript, \<open>oncomplete\<close> on the request's object, with the four arguments
  status, socket object, request object and the \<open>Buffer\<close> given to send; the errno in
  force at the call is the last error of the loop when the status is not zero. The
  request is destroyed on return, and along every later run there is exactly this one
  completion for it.
\<close>

theorem send_completion:
  assumes "exec evs0 init_world = Return w0"
    and "DoSend wrap b offset n port address fam res w0 = Return (ReqObject i, w1)"
    and "exec evs w1 = Return w" and "i \<in> set (send_queue w)"
  shows "\<exists>w'. loop_send_done i status e w = Return w' \<and>
           OnSend i status (w\<lparr>send_queue := removeAll i (send_queue w), last_error := e\<rparr>) = Return w' \<and>
           completions i w = [] \<and>
           callbacks w' = callbacks w @
             [\<lparr>cb_object = ReqObject i, cb_symbol = oncomplete_sym,
               cb_argv = [Integer status, UDPObject wrap, ReqObject i, BufferObject b],
               cb_errno = (if status \<noteq> 0 then Some e else errno w)\<rparr>] \<and>
           reqs w' i = None \<and>
           (\<forall>evs' w''. exec evs' w' = Return w'' \<longrightarrow>
              length (completions i w'') = 1 \<and> reqs w'' i = None)"
proof -
  have u: "unused_ids w0" using exec_unused_ids [OF assms(1) unused_ids_init] .
  have ok: "uv_r res = 0" using DoSend_effect [OF assms(2)] by (cases "uv_r res = 0") simp_all
  from DoSend_pending [OF u assms(2) ok] have i: "i = next_req w0" and "pending i wrap b w1"
    by simp_all
  from exec_pending [OF assms(3) this(2)] assms(4) have p: "pending i wrap b w"
    by (auto simp add: completed_def)
  from pending_completes [OF p, of status e] obtain w' where w':
    "loop_send_done i status e w = Return w'"
    "callbacks w' = callbacks w @
             [\<lparr>cb_object = ReqObject i, cb_symbol = oncomplete_sym,
               cb_argv = [Integer status, UDPObject wrap, ReqObject i, BufferObject b],
               cb_errno = (if status \<noteq> 0 then Some e else errno w)\<rparr>]"
    "reqs w' i = None" "completed i wrap b w'"
    by blast
  have "length (completions i w'') = 1 \<and> reqs w'' i = None"
    if "exec evs' w' = Return w''" for evs' w''
    using exec_completed [OF that w'(4)] by (auto simp add: completed_def)
  moreover have "completions i w = []" using p by (simp add: pending_def)
  moreover have "OnSend i status (w\<lparr>send_queue := removeAll i (send_queue w), last_error := e\<rparr>) = Return w'"
    using w'(1) assms(4) by (simp add: loop_send_done_def)
  ultimately show ?thesis using w' by blast
qed

theorem send_outcomes_witness:
  "exec [] init_world = Return init_world
   \<and> (0 :: nat) < buf_length \<lparr>buf_id = 0, buf_data = 4096, buf_length = 5\<rparr>
   \<and> (5 :: nat) \<le> buf_length \<lparr>buf_id = 0, buf_data = 4096, buf_length = 5\<rparr> - 0
   \<and> (\<exists>w1. DoSend 7 \<lparr>buf_id = 0, buf_data = 4096, buf_length = 5\<rparr> 0 5 8000 ''127.0.0.1'' AF_INET
              \<lparr>uv_r = 0, uv_e = \<lparr>code = UV_CODE 0, sys_errno = 0\<rparr>\<rparr> init_world
              = Return (ReqObject 0, w1)
            \<and> callbacks w1 = []
            \<and> pending 0 7 \<lparr>buf_id = 0, buf_data = 4096, buf_length = 5\<rparr> w1
            \<and> (\<exists>w'. step (Ev_send_done 0 0 \<lparr>code = UV_CODE 0, sys_errno = 0\<rparr>) w1 = Return w'
                     \<and> completed 0 7 \<lparr>buf_id = 0, buf_data = 4096, buf_length = 5\<rparr> w')
            \<and> goes_on (\<lambda>k. Ev_send_done 0 0 \<lparr>code = UV_CODE 0, sys_errno = 0\<rparr>) w1
            \<and> loop_reports (\<lambda>k. Ev_send_done 0 0 \<lparr>code = UV_CODE 0, sys_errno = 0\<rparr>) w1
            \<and> (\<exists>k. \<forall>k'\<ge>k. \<exists>w.
                  run_upto (\<lambda>k. Ev_send_done 0 0 \<lparr>code = UV_CODE 0, sys_errno = 0\<rparr>) k' w1 = Return w
                  \<and> completed 0 7 \<lparr>buf_id = 0, buf_data = 4096, buf_length = 5\<rparr> w))
   \<and> (\<exists>w1. DoSend 7 \<lparr>buf_id = 0, buf_data = 4096, buf_length = 5\<rparr> 0 5 8000 ''127.0.0.1'' AF_INET
              \<lparr>uv_r = - 1, uv_e = \<lparr>code = UV_CODE 9, sys_errno = 9\<rparr>\<rparr> init_world
              = Return (Null, w1)
            \<and> callbacks w1 = [] \<and> dropped 0 w1)"
proof -
  let ?b = "\<lparr>buf_id = 0, buf_data = 4096, buf_length = 5\<rparr>"
  let ?ok = "\<lparr>uv_r = 0, uv_e = \<lparr>code = UV_CODE 0, sys_errno = 0\<rparr>\<rparr>"
  let ?ko = "\<lparr>uv_r = - 1, uv_e = \<lparr>code = UV_CODE 9, sys_errno = 9\<rparr>\<rparr>"
  let ?sched = "\<lambda>k :: nat. Ev_send_done 0 0 \<lparr>code = UV_CODE 0, sys_errno = 0\<rparr>"
  have h1: "exec [] init_world = Return init_world" by simp
  have h2: "(0 :: nat) < buf_length ?b" by simp
  have h3: "(5 :: nat) \<le> buf_length ?b - 0" by simp
  have h4: "AF_INET = AF_INET \<or> AF_INET = AF_INET6" by simp
  have n0: "next_req init_world = 0" "callbacks init_world = []" "send_queue init_world = []"
    by (simp_all add: init_world_def)
  have ok: "uv_r ?ok = 0" and ko: "uv_r ?ko \<noteq> 0" by simp_all
  from send_outcomes [OF h1 h2 h3 h4, of 7 8000 "''127.0.0.1''" ?ok]
  obtain v w1 where a: "DoSend 7 ?b 0 5 8000 ''127.0.0.1'' AF_INET ?ok init_world = Return (v, w1)"
    "callbacks w1 = callbacks init_world"
    "if uv_r ?ok = 0
     then v = ReqObject (next_req init_world) \<and>
          (\<forall>evs w. exec evs w1 = Return w \<longrightarrow>
             (pending (next_req init_world) 7 ?b w \<and>
              (\<forall>s e. \<exists>w'. step (Ev_send_done (next_req init_world) s e) w = Return w' \<and>
                         completed (next_req init_world) 7 ?b w'))
             \<or> completed (next_req init_world) 7 ?b w) \<and>
          (\<forall>sched. goes_on sched w1 \<and> loop_reports sched w1 \<longrightarrow>
             (\<exists>k. \<forall>k'\<ge>k. \<exists>w. run_upto sched k' w1 = Return w \<and>
                              completed (next_req init_world) 7 ?b w))
     else v = Null \<and> reqs w1 (next_req init_world) = None \<and>
          (\<forall>evs w. exec evs w1 = Return w \<longrightarrow> dropped (next_req init_world) w)"
    by (elim exE conjE)
  from a(3) have a3: "v = ReqObject 0"
    "\<forall>evs w. exec evs w1 = Return w \<longrightarrow>
        (pending 0 7 ?b w \<and>
           (\<forall>s e. \<exists>w'. step (Ev_send_done 0 s e) w = Return w' \<and> completed 0 7 ?b w'))
        \<or> completed 0 7 ?b w"
    "\<forall>sched. goes_on sched w1 \<and> loop_reports sched w1 \<longrightarrow>
        (\<exists>k. \<forall>k'\<ge>k. \<exists>w. run_upto sched k' w1 = Return w \<and> completed 0 7 ?b w)"
    unfolding if_P [OF ok] n0 by blast+
  have q: "send_queue w1 = [0]" using DoSend_effect [OF a(1)] by (simp add: n0)
  from a3(2) have "(pending 0 7 ?b w1 \<and>
           (\<forall>s e. \<exists>w'. step (Ev_send_done 0 s e) w1 = Return w' \<and> completed 0 7 ?b w'))
        \<or> completed 0 7 ?b w1"
    by (metis exec.simps(1))
  with q have p: "pending 0 7 ?b w1"
    "\<exists>w'. step (Ev_send_done 0 0 \<lparr>code = UV_CODE 0, sys_errno = 0\<rparr>) w1 = Return w'
        \<and> completed 0 7 ?b w'"
    by (auto simp add: completed_def)
  from report_schedule [OF p(1) q, of 0 "\<lparr>code = UV_CODE 0, sys_errno = 0\<rparr>"]
  have f: "goes_on ?sched w1" "loop_reports ?sched w1" by simp_all
  with a3(3) have ev: "\<exists>k. \<forall>k'\<ge>k. \<exists>w. run_upto ?sched k' w1 = Return w \<and> completed 0 7 ?b w"
    by blast
  have first: "\<exists>w1. DoSend 7 ?b 0 5 8000 ''127.0.0.1'' AF_INET ?ok init_world = Return (ReqObject 0, w1)
            \<and> callbacks w1 = []
            \<and> pending 0 7 ?b w1
            \<and> (\<exists>w'. step (Ev_send_done 0 0 \<lparr>code = UV_CODE 0, sys_errno = 0\<rparr>) w1 = Return w'
                     \<and> completed 0 7 ?b w')
            \<and> goes_on ?sched w1 \<and> loop_reports ?sched w1
            \<and> (\<exists>k. \<forall>k'\<ge>k. \<exists>w. run_upto ?sched k' w1 = Return w \<and> completed 0 7 ?b w)"
    using a(1,2) a3(1) p f ev n0(2) by (intro exI [of _ w1]) simp
  from send_outcomes [OF h1 h2 h3 h4, of 7 8000 "''127.0.0.1''" ?ko]
  obtain v2 w2 where b: "DoSend 7 ?b 0 5 8000 ''127.0.0.1'' AF_INET ?ko init_world = Return (v2, w2)"
    "callbacks w2 = callbacks init_world"
    "if uv_r ?ko = 0
     then v2 = ReqObject (next_req init_world) \<and>
          (\<forall>evs w. exec evs w2 = Return w \<longrightarrow>
             (pending (next_req init_world) 7 ?b w \<and>
              (\<forall>s e. \<exists>w'. step (Ev_send_done (next_req init_world) s e) w = Return w' \<and>
                         completed (next_req init_world) 7 ?b w'))
             \<or> completed (next_req init_world) 7 ?b w) \<and>
          (\<forall>sched. goes_on sched w2 \<and> loop_reports sched w2 \<longrightarrow>
             (\<exists>k. \<forall>k'\<ge>k. \<exists>w. run_upto sched k' w2 = Return w \<and>
                              completed (next_req init_world) 7 ?b w))
     else v2 = Null \<and> reqs w2 (next_req init_world) = None \<and>
          (\<forall>evs w. exec evs w2 = Return w \<longrightarrow> dropped (next_req init_world) w)"
    by (elim exE conjE)
  from b(3) have b3: "v2 = Null" "\<forall>evs w. exec evs w2 = Return w \<longrightarrow> dropped 0 w"
    unfolding if_not_P [OF ko] n0 by blast+
  from b3(2) have "dropped 0 w2" by (metis exec.simps(1))
  then have second: "\<exists>w1. DoSend 7 ?b 0 5 8000 ''127.0.0.1'' AF_INET ?ko init_world = Return (Null, w1)
            \<and> callbacks w1 = [] \<and> dropped 0 w1"
    using b(1,2) b3(1) n0(2) by (intro exI [of _ w2]) simp
  from h1 h2 h3 first second show ?thesis by (intro conjI)
qed

theorem send_completion_witness:
  "exec [] init_world = Return init_world
   \<and> (\<exists>w1 w'. DoSend 7 \<lparr>buf_id = 0, buf_data = 4096, buf_length = 5\<rparr> 0 5 8000 ''127.0.0.1'' AF_INET
              \<lparr>uv_r = 0, uv_e = \<lparr>code = UV_CODE 0, sys_errno = 0\<rparr>\<rparr> init_world
              = Return (ReqObject 0, w1)
        \<and> exec [] w1 = Return w1 \<and> 0 \<in> set (send_queue w1)
        \<and> loop_send_done 0 (- 1) \<lparr>code = UV_CODE 9, sys_errno = 9\<rparr> w1 = Return w'
        \<and> callbacks w' =
             [\<lparr>cb_object = ReqObject 0, cb_symbol = oncomplete_sym,
               cb_argv = [Integer (- 1), UDPObject 7, ReqObject 0,
                          BufferObject \<lparr>buf_id = 0, buf_data = 4096, buf_length = 5\<rparr>],
               cb_errno = Some \<lparr>code = UV_CODE 9, sys_errno = 9\<rparr>\<rparr>]
        \<and> reqs w' 0 = None)"
proof -
  let ?b = "\<lparr>buf_id = 0, buf_data = 4096, buf_length = 5\<rparr>"
  let ?ok = "\<lparr>uv_r = 0, uv_e = \<lparr>code = UV_CODE 0, sys_errno = 0\<rparr>\<rparr>"
  have h1: "exec [] init_world = Return init_world" by simp
  have n0: "next_req init_world = 0" "callbacks init_world = []" by (simp_all add: init_world_def)
  obtain v w1 where d: "DoSend 7 ?b 0 5 8000 ''127.0.0.1'' AF_INET ?ok init_world = Return (v, w1)"
    using DoSend_returns [of 0 ?b 5 AF_INET 7 8000 "''127.0.0.1''" ?ok init_world] by auto
  from DoSend_effect [OF d] have e: "v = ReqObject 0" "0 \<in> set (send_queue w1)"
    "callbacks w1 = []"
    by (simp_all add: n0)
  have h2: "DoSend 7 ?b 0 5 8000 ''127.0.0.1'' AF_INET ?ok init_world = Return (ReqObject 0, w1)"
    using d e(1) by simp
  have h3: "exec [] w1 = Return w1" by simp
  from send_completion [OF h1 h2 h3 e(2), of "- 1" "\<lparr>code = UV_CODE 9, sys_errno = 9\<rparr>"]
  obtain w' where "loop_send_done 0 (- 1) \<lparr>code = UV_CODE 9, sys_errno = 9\<rparr> w1 = Return w'"
    "callbacks w' = callbacks w1 @
             [\<lparr>cb_object = ReqObject 0, cb_symbol = oncomplete_sym,
               cb_argv = [Integer (- 1), UDPObject 7, ReqObject 0, BufferObject ?b],
               cb_errno = Some \<lparr>code = UV_CODE 9, sys_errno = 9\<rparr>\<rparr>]"
    "reqs w' 0 = None"
    by auto
  with h1 h2 h3 e(2,3) show ?thesis by auto
qed

subsection \<open>Binding\<close>

lemma DoBind_bound:
  assumes "DoBind wrap a p f fam res w = Return (v, w')" and "bound (handles w h) = Some b"
  shows "\<exists>b'. bound (handles w' h) = Some b' \<and> family_of b' = family_of b"
  using assms
  by (auto simp add: DoBind_def uv_udp_bind_def uv_udp_bind6_def uv_udp_bind_os_def SetErrno_def
      split: family.splits option.splits if_splits)

lemma DoBind_success:
  assumes "DoBind wrap a p f fam res w = Return (Integer 0, w')"
  shows "\<exists>b. bound (handles w' wrap) = Some b \<and> family_of b = fam"
  using assms
  by (auto simp add: DoBind_def uv_udp_bind_def uv_udp_bind6_def uv_udp_bind_os_def SetErrno_def
      uv_ip4_addr_def uv_ip6_addr_def family_of_def
      split: family.splits option.splits if_splits)

lemma DoBind_conflict:
  assumes "bound (handles w wrap) = Some b" and "family_of b \<noteq> fam"
    and "fam = AF_INET \<or> fam = AF_INET6"
  shows "\<exists>w'. DoBind wrap a p f fam res w = Return (Integer (- 1), w') \<and>
           errno w' = Some \<lparr>code = UV_BIND_CONFLICT, sys_errno = 0\<rparr> \<and>
           handles w' = handles w \<and> callbacks w' = callbacks w"
  using assms
  by (auto simp add: DoBind_def uv_udp_bind_def uv_udp_bind6_def uv_udp_bind_os_def SetErrno_def
      uv_ip4_addr_def uv_ip6_addr_def family_of_def uv_last_error_def)

lemma DoSend_handles:
  assumes "DoSend wrap b offset n port address fam res w = Return (v, w')"
  shows "handles w' = handles w"
  using assms
  by (auto simp add: DoSend_def new_SendWrap_def SetHiddenValue_def Dispatched_def delete_req_def
      uv_udp_send_def uv_udp_send6_def uv_udp_send_os_def SetErrno_def uv_last_error_def Let_def
      split: family.splits if_splits)

lemma setters_bound:
  "bound (handles (snd (X fn wrap flag res w)) h) = bound (handles w h)"
  "bound (handles (snd (SetMembership wrap a iface m res w)) h) = bound (handles w h)"
  "bound (handles (snd (RecvStart wrap res w)) h) = bound (handles w h)"
  "bound (handles (snd (RecvStop wrap res w)) h) = bound (handles w h)"
  "bound (handles (snd (GetSockName wrap address res w)) h) = bound (handles w h)"
  by (simp_all add: method_defs uv_udp_recv_start_def uv_udp_recv_stop_def Let_def split_def)

lemma loop_bound:
  "handles (loop_recv h sz p n a f sl e w) = handles w"
  "loop_send_done i s e w = Return w' \<Longrightarrow> handles w' = handles w"
  by (auto simp add: loop_recv_def OnAlloc_eq OnRecv_def SlabAllocator_Shrink_def MakeCallback_def
      SetErrno_def Let_def loop_send_done_def OnSend_def delete_req_def
      split: option.splits if_splits)

lemma step_bound:
  assumes "step ev w = Return w'" and "bound (handles w h) = Some b"
  shows "\<exists>b'. bound (handles w' h) = Some b' \<and> family_of b' = family_of b"
proof (cases ev)
  case (Ev_Bind h' a p f r)
  then obtain v where "DoBind h' a p f AF_INET r w = Return (v, w')"
    using assms(1) by (auto simp add: Bind_def world_of_def split: run.splits)
  from DoBind_bound [OF this assms(2)] show ?thesis .
next
  case (Ev_Bind6 h' a p f r)
  then obtain v where "DoBind h' a p f AF_INET6 r w = Return (v, w')"
    using assms(1) by (auto simp add: Bind6_def world_of_def split: run.splits)
  from DoBind_bound [OF this assms(2)] show ?thesis .
next
  case (Ev_Send h' b' off n p a r)
  then obtain v where "DoSend h' b' off n p a AF_INET r w = Return (v, w')"
    using assms(1) by (auto simp add: Send_def world_of_def split: run.splits)
  from DoSend_handles [OF this] assms(2) show ?thesis by simp
next
  case (Ev_Send6 h' b' off n p a r)
  then obtain v where "DoSend h' b' off n p a AF_INET6 r w = Return (v, w')"
    using assms(1) by (auto simp add: Send6_def world_of_def split: run.splits)
  from DoSend_handles [OF this] assms(2) show ?thesis by simp
next
  case (Ev_send_done i s e)
  then show ?thesis using assms loop_bound(2) [of i s e w w'] by simp
next
  case (Ev_recv h' sz p n a f sl e)
  then show ?thesis using assms loop_bound(1) [of h' sz p n a f sl e w] by auto
qed (use assms setters_bound in
      \<open>auto simp add: SetTTL_def SetBroadcast_def SetMulticastTTL_def SetMulticastLoopback_def
         AddMembership_def DropMembership_def\<close>)

lemma exec_bound:
  "exec evs w = Return w' \<Longrightarrow> bound (handles w h) = Some b \<Longrightarrow>
   \<exists>b'. bound (handles w' h) = Some b' \<and> family_of b' = family_of b"
proof (induction evs arbitrary: w b)
  case Nil
  then show ?case by simp
next
  case (Cons ev evs)
  then obtain w1 where s: "step ev w = Return w1" and r: "exec evs w1 = Return w'"
    by (auto split: run.splits)
  from step_bound [OF s Cons.prems(2)] obtain b1
    where b1: "bound (handles w1 h) = Some b1" "family_of b1 = family_of b" by blast
  from Cons.IH [OF r b1(1)] b1(2) show ?case by simp
qed

text \<open>
  Claim C2. Let a bind of socket \<open>wrap\<close> with family A have returned 0. After any
  run that follows, the socket is still bound to an address of family A, and a bind
  with the other family B returns \<open>-1\<close> with the errno set to the bind conflict, and
  leaves every socket, this one's binding included, as it was. The rejection is that of
  the bind primitive as the specification describes it; \<open>DoBind\<close> passes its result on
  and sets the errno.
\<close>

theorem rebind_other_family:
  assumes "DoBind wrap a1 p1 f1 famA res1 w0 = Return (Integer 0, w1)"
    and "exec evs w1 = Return w"
    and "famB = AF_INET \<or> famB = AF_INET6" and "famB \<noteq> famA"
  shows "\<exists>b w'. bound (handles w wrap) = Some b \<and> family_of b = famA \<and>
           DoBind wrap a2 p2 f2 famB res2 w = Return (Integer (- 1), w') \<and>
           errno w' = Some \<lparr>code = UV_BIND_CONFLICT, sys_errno = 0\<rparr> \<and>
           handles w' = handles w"
proof -
  from DoBind_success [OF assms(1)] obtain b1
    where "bound (handles w1 wrap) = Some b1" "family_of b1 = famA" by blast
  from exec_bound [OF assms(2) this(1)] this(2) obtain b
    where b: "bound (handles w wrap) = Some b" "family_of b = famA" by auto
  have "family_of b \<noteq> famB" using b(2) assms(4) by simp
  from DoBind_conflict [OF b(1) this assms(3), of a2 p2 f2 res2] b show ?thesis by blast
qed

theorem rebind_other_family_witness:
  "(\<exists>w1 w'. DoBind 7 ''127.0.0.1'' 0 0 AF_INET \<lparr>uv_r = 0, uv_e = \<lparr>code = UV_CODE 0, sys_errno = 0\<rparr>\<rparr>
               init_world = Return (Integer 0, w1)
      \<and> exec [] w1 = Return w1
      \<and> bound (handles w1 7) = Some (SockAddr AF_INET ''127.0.0.1'' 0)
      \<and> DoBind 7 ''::1'' 0 0 AF_INET6 \<lparr>uv_r = 0, uv_e = \<lparr>code = UV_CODE 0, sys_errno = 0\<rparr>\<rparr> w1
          = Return (Integer (- 1), w')
      \<and> errno w' = Some \<lparr>code = UV_BIND_CONFLICT, sys_errno = 0\<rparr>
      \<and> bound (handles w' 7) = Some (SockAddr AF_INET ''127.0.0.1'' 0))
   \<and> AF_INET6 \<noteq> AF_INET"
proof -
  let ?ok = "\<lparr>uv_r = 0, uv_e = \<lparr>code = UV_CODE 0, sys_errno = 0\<rparr>\<rparr>"
  obtain w1 where d: "DoBind 7 ''127.0.0.1'' 0 0 AF_INET ?ok init_world = Return (Integer 0, w1)"
    and b1: "bound (handles w1 7) = Some (SockAddr AF_INET ''127.0.0.1'' 0)"
    by (simp add: DoBind_def uv_udp_bind_def uv_udp_bind_os_def init_world_def uv_ip4_addr_def
        int_of_uint32_def)
  have r: "exec [] w1 = Return w1" by simp
  from rebind_other_family [OF d r, of AF_INET6 "''::1''" 0 0 ?ok]
  obtain w' where "DoBind 7 ''::1'' 0 0 AF_INET6 ?ok w1 = Return (Integer (- 1), w')"
    "errno w' = Some \<lparr>code = UV_BIND_CONFLICT, sys_errno = 0\<rparr>" "handles w' = handles w1"
    by auto
  with d r b1 show ?thesis by auto
qed

subsection \<open>Arming the receiver\<close>

text \<open>
  Claim C8. On a socket that is armed, \<open>RecvStart\<close> returns \<open>True\<close>, does not set the
  errno, and leaves the sockets and the notifications as they were: the source reads
  \<open>UV_EALREADY\<close> as success. So when a first \<open>RecvStart\<close> finds the socket armed or
  arms it, it returns \<open>True\<close> and leaves the socket armed, and a second one right after
  it returns \<open>True\<close> too and changes neither the sockets, nor the errno, nor the
  notifications.
\<close>

theorem RecvStart_twice:
  "(recv_armed (handles w wrap) \<longrightarrow>
      fst (RecvStart wrap res w) = JSTrue \<and>
      errno (snd (RecvStart wrap res w)) = errno w \<and>
      handles (snd (RecvStart wrap res w)) = handles w \<and>
      callbacks (snd (RecvStart wrap res w)) = callbacks w)
   \<and> (recv_armed (handles w wrap) \<or> uv_r res1 = 0 \<longrightarrow>
      fst (RecvStart wrap res1 w) = JSTrue \<and>
      recv_armed (handles (snd (RecvStart wrap res1 w)) wrap) \<and>
      fst (RecvStart wrap res2 (snd (RecvStart wrap res1 w))) = JSTrue \<and>
      handles (snd (RecvStart wrap res2 (snd (RecvStart wrap res1 w)))) =
        handles (snd (RecvStart wrap res1 w)) \<and>
      errno (snd (RecvStart wrap res2 (snd (RecvStart wrap res1 w)))) =
        errno (snd (RecvStart wrap res1 w)) \<and>
      callbacks (snd (RecvStart wrap res2 (snd (RecvStart wrap res1 w)))) =
        callbacks (snd (RecvStart wrap res1 w)))"
  by (simp add: RecvStart_def uv_udp_recv_start_def uv_last_error_def SetErrno_def)

theorem RecvStart_twice_witness:
  "uv_r \<lparr>uv_r = 0, uv_e = \<lparr>code = UV_CODE 0, sys_errno = 0\<rparr>\<rparr> = 0
   \<and> fst (RecvStart 7 \<lparr>uv_r = 0, uv_e = \<lparr>code = UV_CODE 0, sys_errno = 0\<rparr>\<rparr> init_world) = JSTrue
   \<and> recv_armed (handles (snd (RecvStart 7 \<lparr>uv_r = 0, uv_e = \<lparr>code = UV_CODE 0, sys_errno = 0\<rparr>\<rparr>
                                  init_world)) 7)
   \<and> fst (RecvStart 7 \<lparr>uv_r = 0, uv_e = \<lparr>code = UV_CODE 0, sys_errno = 0\<rparr>\<rparr>
            (snd (RecvStart 7 \<lparr>uv_r = 0, uv_e = \<lparr>code = UV_CODE 0, sys_errno = 0\<rparr>\<rparr> init_world)))
       = JSTrue
   \<and> errno (snd (RecvStart 7 \<lparr>uv_r = 0, uv_e = \<lparr>code = UV_CODE 0, sys_errno = 0\<rparr>\<rparr>
            (snd (RecvStart 7 \<lparr>uv_r = 0, uv_e = \<lparr>code = UV_CODE 0, sys_errno = 0\<rparr>\<rparr> init_world))))
       = None"
  using RecvStart_twice [of init_world 7 "\<lparr>uv_r = 0, uv_e = \<lparr>code = UV_CODE 0, sys_errno = 0\<rparr>\<rparr>"
      "\<lparr>uv_r = 0, uv_e = \<lparr>code = UV_CODE 0, sys_errno = 0\<rparr>\<rparr>"
      "\<lparr>uv_r = 0, uv_e = \<lparr>code = UV_CODE 0, sys_errno = 0\<rparr>\<rparr>"]
  by (simp add: RecvStart_def uv_udp_recv_start_def init_world_def)

end
